theory Spec2Isabelle
  imports Main "HOL-Library.Sublist"
begin

section \<open>JavaScript values\<close>

text \<open>
  The configuration loader of \<^verbatim>\<open>packages/next/next-server/server/config.ts\<close> works on
  untyped JavaScript values: the user's configuration is whatever a module exports.
  A value is a primitive, an array, a plain object (written as an object literal) or a
  function.  Arrays, objects and functions carry the identity of their heap cell, which
  is what \<^verbatim>\<open>===\<close> compares; a function is known by that identity alone and its
  behaviour is supplied by the environment (\<open>call_fn\<close> below).

  An object is the list of its own enumerable properties in insertion order.  Reads take
  the first binding of a key, writes replace it in place, and enumeration lists every key
  once (\<open>first_bindings\<close>), so a list that repeats a key denotes the object of its first bindings.

  Outside the model: numbers that are not integers (and NaN), symbols, getters, proxies,
  instances of classes, properties hung on arrays and functions, objects that bring their
  own \<^verbatim>\<open>toString\<close>, \<^verbatim>\<open>endsWith\<close> or \<^verbatim>\<open>slice\<close>, and the engine's rule that
  integer-like keys are enumerated first.  Strings are byte strings.
\<close>

datatype jsval =
    JUndefined
  | JNull
  | JBool bool
  | JNum int
  | JStr string
  | JArr nat "jsval list"
  | JObj nat "(string \<times> jsval) list"
  | JFun nat

type_synonym props = "(string \<times> jsval) list"

text \<open>
  What a \<^verbatim>\<open>throw\<close> carries: \<open>Error msg\<close> is \<^verbatim>\<open>new Error(msg)\<close>, thrown by the loader
  itself; \<open>TypeError\<close> is raised by the engine (a property read on \<^verbatim>\<open>undefined\<close> or
  \<^verbatim>\<open>null\<close>, a call of something that is not a function); \<open>Thrown v\<close> is whatever user
  code or \<^verbatim>\<open>require\<close> throws.
\<close>

datatype jserror = Error string | TypeError | Thrown jsval

text \<open>Truthiness, as \<^verbatim>\<open>if (v)\<close>, \<^verbatim>\<open>v && ...\<close>, \<^verbatim>\<open>v || ...\<close> and \<^verbatim>\<open>!!v\<close> test it.\<close>

fun truthy :: "jsval \<Rightarrow> bool" where
  "truthy JUndefined = False"
| "truthy JNull = False"
| "truthy (JBool b) = b"
| "truthy (JNum n) = (n \<noteq> 0)"
| "truthy (JStr s) = (s \<noteq> [])"
| "truthy (JArr i xs) = True"
| "truthy (JObj i ps) = True"
| "truthy (JFun f) = True"

text \<open>\<^verbatim>\<open>a === b\<close>: primitives by value, heap cells by identity.\<close>

fun strict_eq :: "jsval \<Rightarrow> jsval \<Rightarrow> bool" where
  "strict_eq JUndefined JUndefined = True"
| "strict_eq JNull JNull = True"
| "strict_eq (JBool a) (JBool b) = (a = b)"
| "strict_eq (JNum a) (JNum b) = (a = b)"
| "strict_eq (JStr a) (JStr b) = (a = b)"
| "strict_eq (JArr i xs) (JArr j ys) = (i = j)"
| "strict_eq (JObj i ps) (JObj j qs) = (i = j)"
| "strict_eq (JFun f) (JFun g) = (f = g)"
| "strict_eq a b = False"

text \<open>\<^verbatim>\<open>typeof v === 'function'\<close>.\<close>

fun is_function :: "jsval \<Rightarrow> bool" where
  "is_function (JFun f) = True"
| "is_function v = False"

text \<open>The built-in constructors that \<^verbatim>\<open>v.constructor\<close> can yield.\<close>

definition Object_ctor :: jsval where "Object_ctor = JFun 0"
definition Array_ctor :: jsval where "Array_ctor = JFun 1"
definition String_ctor :: jsval where "String_ctor = JFun 2"
definition Number_ctor :: jsval where "Number_ctor = JFun 3"
definition Boolean_ctor :: jsval where "Boolean_ctor = JFun 4"
definition Function_ctor :: jsval where "Function_ctor = JFun 5"

fun constructor_of :: "jsval \<Rightarrow> jsval" where
  "constructor_of (JObj i ps) = Object_ctor"
| "constructor_of (JArr i xs) = Array_ctor"
| "constructor_of (JStr s) = String_ctor"
| "constructor_of (JNum n) = Number_ctor"
| "constructor_of (JBool b) = Boolean_ctor"
| "constructor_of (JFun f) = Function_ctor"
| "constructor_of v = JUndefined"

subsection \<open>Decimal numerals, for array indices and for numbers in messages\<close>

definition digit :: "nat \<Rightarrow> char" where
  "digit n = ''0123456789'' ! n"

function dec :: "nat \<Rightarrow> string" where
  "dec n = (if n < 10 then [digit n] else dec (n div 10) @ [digit (n mod 10)])"
  by pat_completeness auto
termination
  by (relation "measure id") auto

declare dec.simps [simp del]

subsection \<open>Own enumerable properties\<close>

fun index_from :: "nat \<Rightarrow> jsval list \<Rightarrow> props" where
  "index_from i [] = []"
| "index_from i (x # xs) = (dec i, x) # index_from (Suc i) xs"

fun first_bindings :: "props \<Rightarrow> props" where
  "first_bindings [] = []"
| "first_bindings (p # ps) = p # filter (\<lambda>q. fst q \<noteq> fst p) (first_bindings ps)"

text \<open>
  What \<^verbatim>\<open>Object.keys(v)\<close> and the spread \<^verbatim>\<open>{...v}\<close> enumerate: the properties of an
  object, the indices of an array, the characters of a string, nothing for the rest.
\<close>

fun own_props :: "jsval \<Rightarrow> props" where
  "own_props (JObj i ps) = first_bindings ps"
| "own_props (JArr i xs) = index_from 0 xs"
| "own_props (JStr s) = index_from 0 (map (\<lambda>c. JStr [c]) s)"
| "own_props v = []"

definition own_keys :: "jsval \<Rightarrow> string list" where
  "own_keys v = map fst (own_props v)"

text \<open>
  \<^verbatim>\<open>v[k]\<close> and \<^verbatim>\<open>v.k\<close> on a value that is neither \<^verbatim>\<open>undefined\<close> nor \<^verbatim>\<open>null\<close>: an own
  property if there is one, else the inherited \<^verbatim>\<open>constructor\<close>, else \<^verbatim>\<open>undefined\<close>.
  (The loader reads no other inherited property through this function.)
\<close>

definition get :: "jsval \<Rightarrow> string \<Rightarrow> jsval" where
  "get v k =
     (case map_of (own_props v) k of
        Some x \<Rightarrow> x
      | None \<Rightarrow> if k = ''constructor'' then constructor_of v else JUndefined)"

text \<open>The same read where the base may be \<^verbatim>\<open>undefined\<close> or \<^verbatim>\<open>null\<close>: the engine throws.\<close>

definition read_member :: "jsval \<Rightarrow> string \<Rightarrow> jserror + jsval" where
  "read_member v k = (if v = JUndefined \<or> v = JNull then Inl TypeError else Inr (get v k))"

text \<open>\<^verbatim>\<open>obj[k] = x\<close> on the property list of an object.\<close>

fun put_prop :: "props \<Rightarrow> string \<Rightarrow> jsval \<Rightarrow> props" where
  "put_prop [] k x = [(k, x)]"
| "put_prop (p # ps) k x = (if fst p = k then (k, x) # ps else p # put_prop ps k x)"

text \<open>
  The assignment keeps the identity of the object it writes to.  The loader assigns only
  to objects (to an object literal of its own, or to a value it has just read a truthy
  named property from), so other values are left as they are.
\<close>

fun put :: "jsval \<Rightarrow> string \<Rightarrow> jsval \<Rightarrow> jsval" where
  "put (JObj i ps) k x = JObj i (put_prop ps k x)"
| "put v k x = v"

text \<open>
  One \<^verbatim>\<open>...v\<close> inside an object literal: the properties of \<open>v\<close> are written, in order,
  onto what the literal holds so far.
\<close>

fun put_all :: "props \<Rightarrow> props \<Rightarrow> props" where
  "put_all acc [] = acc"
| "put_all acc (q # qs) = put_all (put_prop acc (fst q) (snd q)) qs"

definition spread :: "props \<Rightarrow> jsval \<Rightarrow> props" where
  "spread acc v = put_all acc (own_props v)"

subsection \<open>Strings\<close>

fun join :: "string \<Rightarrow> string list \<Rightarrow> string" where
  "join sep [] = []"
| "join sep [x] = x"
| "join sep (x # y # ys) = x @ sep @ join sep (y # ys)"

text \<open>
  The conversion a template literal \<^verbatim>\<open>`${v}`\<close> applies.  The text of a function is
  supplied by the environment.
\<close>

fun to_string :: "(nat \<Rightarrow> string) \<Rightarrow> jsval \<Rightarrow> string" where
  "to_string src JUndefined = ''undefined''"
| "to_string src JNull = ''null''"
| "to_string src (JBool b) = (if b then ''true'' else ''false'')"
| "to_string src (JNum n) = (if n < 0 then ''-'' @ dec (nat (- n)) else dec (nat n))"
| "to_string src (JStr s) = s"
| "to_string src (JArr i xs) =
     join '','' (map (\<lambda>x. if x = JUndefined \<or> x = JNull then [] else to_string src x) xs)"
| "to_string src (JObj i ps) = ''[object Object]''"
| "to_string src (JFun f) = src f"

text \<open>\<^verbatim>\<open>s.endsWith('/')\<close> and \<^verbatim>\<open>s.slice(0, -1)\<close> on a string.\<close>

definition endsWith_slash :: "string \<Rightarrow> bool" where
  "endsWith_slash s = (s \<noteq> [] \<and> last s = CHR ''/'')"

definition slice_0_minus1 :: "string \<Rightarrow> string" where
  "slice_0_minus1 s = butlast s"

text \<open>\<^verbatim>\<open>xs.includes(v)\<close> on an array of strings.\<close>

fun array_includes :: "string list \<Rightarrow> jsval \<Rightarrow> bool" where
  "array_includes xs (JStr s) = (s \<in> set xs)"
| "array_includes xs v = False"

text \<open>
  \<^verbatim>\<open>basename\<close> and \<^verbatim>\<open>extname\<close> of Node's \<^verbatim>\<open>path\<close> module, for POSIX paths that name a
  file: the last component, and its part from the last dot on when that dot is not its
  first character.
\<close>

definition basename :: "string \<Rightarrow> string" where
  "basename p =
     rev (takeWhile (\<lambda>c. c \<noteq> CHR ''/'') (dropWhile (\<lambda>c. c = CHR ''/'') (rev p)))"

definition extname :: "string \<Rightarrow> string" where
  "extname p =
     (let b = basename p;
          e = rev (takeWhile (\<lambda>c. c \<noteq> CHR ''.'') (rev b))
      in if length e + 1 < length b then CHR ''.'' # e else [])"

definition basename_ext :: "string \<Rightarrow> string \<Rightarrow> string" where
  "basename_ext p ext =
     (let b = basename p
      in if ext \<noteq> [] \<and> ext \<noteq> b \<and> suffix ext b then take (length b - length ext) b else b)"

section \<open>The environment and the state of the process\<close>

text \<open>
  What the loader reads from outside: the two numbers the default CPU count is computed
  from, the \<^verbatim>\<open>find-up\<close> package (which walks from a directory up to the root and returns
  the first path that exists among the given names, or \<^verbatim>\<open>undefined\<close>), Node's
  \<^verbatim>\<open>require\<close>, and the functions that user modules define.
\<close>

record world =
  circle_node_total :: int
  os_cpu_count :: nat
  findUp_sync :: "string list \<Rightarrow> string \<Rightarrow> string option"
  require :: "string \<Rightarrow> jserror + jsval"
  call_fn :: "nat \<Rightarrow> jsval list \<Rightarrow> jserror + jsval"
  fn_source :: "nat \<Rightarrow> string"

text \<open>
  What a call leaves behind: the flag of the one-time warning, the lines written with
  \<^verbatim>\<open>console.warn\<close>, the calls made to the environment, and the next free heap identity.
\<close>

datatype event = FindUp "string list" string | Require string | Call nat "jsval list"

record state =
  warned :: bool
  console :: "string list"
  trace :: "event list"
  fresh :: nat

text \<open>
  The objects that exist before the first call have identities below 100: the built-in
  constructors 0 to 5, the default configuration and its parts 10 to 20.  User modules
  bring their own identities.
\<close>

definition init_state :: state where
  "init_state = \<lparr>warned = False, console = [], trace = [], fresh = 100\<rparr>"

definition new_object :: "state \<Rightarrow> props \<Rightarrow> jsval \<times> state" where
  "new_object st ps = (JObj (fresh st) ps, st\<lparr>fresh := Suc (fresh st)\<rparr>)"

definition record_event :: "event \<Rightarrow> state \<Rightarrow> state" where
  "record_event e st = st\<lparr>trace := trace st @ [e]\<rparr>"

section \<open>config.ts\<close>

definition targets :: "string list" where
  "targets = [''server'', ''serverless'', ''experimental-serverless-trace'']"

definition reactModes :: "string list" where
  "reactModes = [''legacy'', ''blocking'', ''concurrent'']"

text \<open>
  Modelled from the spec: the constant \<^verbatim>\<open>CONFIG_FILE\<close> of \<^verbatim>\<open>../lib/constants\<close> is not
  among the sources; the spec names the file that is looked for \<^verbatim>\<open>next.config.js\<close>.
\<close>

definition CONFIG_FILE :: string where
  "CONFIG_FILE = ''next.config.js''"

text \<open>
  \<^verbatim>\<open>Math.max(1, (Number(process.env.CIRCLE_NODE_TOTAL) || (os.cpus() || { length: 1 }).length) - 1)\<close>,
  with \<open>circle_node_total\<close> the number read from the environment variable (0 when it is
  unset or not a number) and \<open>os_cpu_count\<close> the length on the right.
\<close>

definition default_cpus :: "world \<Rightarrow> int" where
  "default_cpus w =
     max 1 ((if circle_node_total w \<noteq> 0 then circle_node_total w else int (os_cpu_count w)) - 1)"

definition defaultConfig :: "world \<Rightarrow> jsval" where
  "defaultConfig w = JObj 10
     [(''env'', JArr 11 []),
      (''webpack'', JNull),
      (''webpackDevMiddleware'', JNull),
      (''distDir'', JStr ''.next''),
      (''assetPrefix'', JStr ''''),
      (''configOrigin'', JStr ''default''),
      (''useFileSystemPublicRoutes'', JBool True),
      (''generateBuildId'', JFun 12),
      (''generateEtags'', JBool True),
      (''pageExtensions'', JArr 13 [JStr ''tsx'', JStr ''ts'', JStr ''jsx'', JStr ''js'']),
      (''target'', JStr ''server''),
      (''poweredByHeader'', JBool True),
      (''compress'', JBool True),
      (''devIndicators'', JObj 14
         [(''buildActivity'', JBool True),
          (''autoPrerender'', JBool True)]),
      (''onDemandEntries'', JObj 15
         [(''maxInactiveAge'', JNum (60 * 1000)),
          (''pagesBufferLength'', JNum 2)]),
      (''amp'', JObj 16
         [(''canonicalBase'', JStr '''')]),
      (''exportTrailingSlash'', JBool False),
      (''experimental'', JObj 17
         [(''ampBindInitData'', JBool False),
          (''cpus'', JNum (default_cpus w)),
          (''catchAllRouting'', JBool False),
          (''css'', JBool False),
          (''documentMiddleware'', JBool False),
          (''granularChunks'', JBool False),
          (''modern'', JBool False),
          (''plugins'', JBool False),
          (''profiling'', JBool False),
          (''sprFlushToDisk'', JBool True),
          (''deferScripts'', JBool False),
          (''reactMode'', JStr ''legacy''),
          (''workerThreads'', JBool False)]),
      (''future'', JObj 18
         [(''excludeDefaultMomentLocales'', JBool False)]),
      (''serverRuntimeConfig'', JObj 19 []),
      (''publicRuntimeConfig'', JObj 20 []),
      (''reactStrictMode'', JBool False)]"

text \<open>
  Modelled from the spec: \<^verbatim>\<open>execOnce\<close> of \<^verbatim>\<open>../lib/utils\<close> is not among the sources.
  The spec describes what it gives the warning: a flag that is process-wide, set on the
  first emission and never reset.  The wrapped function runs on the first call only.
\<close>

definition execOnce :: "(state \<Rightarrow> state) \<Rightarrow> state \<Rightarrow> state" where
  "execOnce fn st = (if warned st then st else fn (st\<lparr>warned := True\<rparr>))"

text \<open>The three \<^verbatim>\<open>console.warn\<close> calls; \<^verbatim>\<open>chalk\<close> only colours the text.\<close>

definition warning_lines :: "string list" where
  "warning_lines =
     [''Warning: You have enabled experimental feature(s).'',
      ''Experimental features are not covered by semver, and may cause unexpected or broken application behavior. Use them at your own risk.'',
      '''']"

definition experimentalWarning :: "state \<Rightarrow> state" where
  "experimentalWarning = execOnce (\<lambda>st. st\<lparr>console := console st @ warning_lines\<rparr>)"

definition distDir_message :: string where
  "distDir_message =
     ''The 'public' directory is reserved in Next.js and can not be set as the 'distDir'. https://err.sh/zeit/next.js/can-not-output-to-public''"

text \<open>\<^verbatim>\<open>!!maybeObject && maybeObject.constructor === Object\<close>.\<close>

definition is_plain_object :: "jsval \<Rightarrow> bool" where
  "is_plain_object maybeObject =
     (truthy maybeObject \<and> strict_eq (get maybeObject ''constructor'') Object_ctor)"

text \<open>Lines 155 to 161: the warning, when the key is \<^verbatim>\<open>experimental\<close>.\<close>

definition warn_experimental :: "world \<Rightarrow> jsval \<Rightarrow> string \<Rightarrow> state \<Rightarrow> state" where
  "warn_experimental w userConfig key st =
     (if key = ''experimental'' \<and> truthy (get userConfig key) \<and>
         \<not> strict_eq (get userConfig key) (get (defaultConfig w) key)
      then experimentalWarning st else st)"

text \<open>
  The properties of the literal \<^verbatim>\<open>{ ...(defaultConfig[key] || {}), ...userConfig[key] }\<close>
  of lines 171 to 174, where \<open>v\<close> is \<^verbatim>\<open>userConfig[key]\<close>; the empty literal on the right
  of \<^verbatim>\<open>||\<close> gives no property.
\<close>

definition merge_default :: "world \<Rightarrow> string \<Rightarrow> jsval \<Rightarrow> props" where
  "merge_default w key v =
     spread
       (if truthy (get (defaultConfig w) key) then spread [] (get (defaultConfig w) key) else [])
       v"

text \<open>
  The body of the \<^verbatim>\<open>forEach\<close> of \<^verbatim>\<open>assignDefaults\<close>, over the keys that
  \<^verbatim>\<open>Object.keys(userConfig)\<close> returned.  A \<^verbatim>\<open>throw\<close> ends the loop; what was written
  to the console before it stays written.
\<close>

fun assign_keys :: "world \<Rightarrow> state \<Rightarrow> jsval \<Rightarrow> string list \<Rightarrow> state \<times> (jserror + jsval)" where
  "assign_keys w st userConfig [] = (st, Inr userConfig)"
| "assign_keys w st userConfig (key # keys) =
     (let st1 = warn_experimental w userConfig key st
      in
      if key = ''distDir'' \<and> strict_eq (get userConfig key) (JStr ''public'')
      then (st1, Inl (Error distDir_message))
      else
        let maybeObject = get userConfig key in
        if is_plain_object maybeObject
        then
          let (merged, st2) = new_object st1 (merge_default w key (get userConfig key))
          in assign_keys w st2 (put userConfig key merged) keys
        else assign_keys w st1 userConfig keys)"

definition assignDefaults :: "world \<Rightarrow> state \<Rightarrow> jsval \<Rightarrow> state \<times> (jserror + jsval)" where
  "assignDefaults w st userConfig =
     (case assign_keys w st userConfig (own_keys userConfig) of
        (st1, Inl e) \<Rightarrow> (st1, Inl e)
      | (st1, Inr userConfig') \<Rightarrow>
          (let (result, st2) = new_object st1 (spread (spread [] (defaultConfig w)) userConfig')
           in (st2, Inr result)))"

definition promise_message :: string where
  "promise_message =
     ''> Promise returned in next config. https://err.sh/zeit/next.js/promise-in-next-config''"

definition normalizeConfig ::
  "world \<Rightarrow> state \<Rightarrow> string \<Rightarrow> jsval \<Rightarrow> state \<times> (jserror + jsval)" where
  "normalizeConfig w st phase config =
     (case config of
        JFun f \<Rightarrow>
          (let (helpers, st1) = new_object st [(''defaultConfig'', defaultConfig w)];
               args = [JStr phase, helpers];
               st2 = record_event (Call f args) st1
           in case call_fn w f args of
                Inl e \<Rightarrow> (st2, Inl e)
              | Inr config' \<Rightarrow>
                  (case read_member config' ''then'' of
                     Inl e \<Rightarrow> (st2, Inl e)
                   | Inr t \<Rightarrow>
                       if is_function t then (st2, Inl (Error promise_message))
                       else (st2, Inr config')))
      | _ \<Rightarrow> (st, Inr config))"

definition target_message :: "world \<Rightarrow> jsval \<Rightarrow> string" where
  \<open>target_message w t =
     ''Specified target is invalid. Provided: "'' @ to_string (fn_source w) t @
     ''" should be one of '' @ join '', '' targets\<close>

definition runtimeConfig_message :: string where
  "runtimeConfig_message =
     ''Cannot use publicRuntimeConfig or serverRuntimeConfig with target=serverless https://err.sh/zeit/next.js/serverless-publicRuntimeConfig''"

definition reactMode_message :: "world \<Rightarrow> jsval \<Rightarrow> string" where
  "reactMode_message w m =
     ''Specified React Mode is invalid. Provided: '' @ to_string (fn_source w) m @
     '' should be one of '' @ join '', '' reactModes"

definition nonJs_message :: "string \<Rightarrow> string" where
  "nonJs_message nonJsPath =
     ''Configuring Next.js via '' @ [CHR 0x27] @ basename nonJsPath @ [CHR 0x27] @
     '' is not supported. Please replace the file with 'next.config.js' or 'next.config.ts'.''"

text \<open>
  Lines 215 to 256 of \<^verbatim>\<open>loadConfig\<close>: the checks on the configuration a file gave, in
  the order of the source.  The first read, \<^verbatim>\<open>userConfig.target\<close>, throws when
  \<open>userConfig\<close> is \<^verbatim>\<open>undefined\<close> or \<^verbatim>\<open>null\<close>; after it \<open>userConfig\<close> is neither, and
  every later read has a base that was tested truthy first.
\<close>

definition check_target :: "world \<Rightarrow> jsval \<Rightarrow> jserror + jsval" where
  "check_target w userConfig =
     (case read_member userConfig ''target'' of
        Inl e \<Rightarrow> Inl e
      | Inr t \<Rightarrow>
          if truthy t \<and> \<not> array_includes targets t
          then Inl (Error (target_message w t))
          else Inr userConfig)"

text \<open>
  Lines 223 to 230.  Inside the branch \<^verbatim>\<open>userConfig.amp\<close> is truthy, so
  \<^verbatim>\<open>userConfig.amp || {}\<close> is \<^verbatim>\<open>userConfig.amp\<close> and the assignment of line 225 writes
  back what it read.  \<^verbatim>\<open>canonicalBase.endsWith\<close> is a function only on a string.
  \<open>strip_slash\<close> is the conditional expression of lines 227 to 229.
\<close>

definition strip_slash :: "string \<Rightarrow> string" where
  "strip_slash canonicalBase =
     (if endsWith_slash canonicalBase then slice_0_minus1 canonicalBase else canonicalBase)"

definition strip_canonicalBase :: "jsval \<Rightarrow> jserror + jsval" where
  "strip_canonicalBase userConfig =
     (if truthy (get userConfig ''amp'') \<and> truthy (get (get userConfig ''amp'') ''canonicalBase'')
      then
        (case get (get userConfig ''amp'') ''canonicalBase'' of
           JStr canonicalBase \<Rightarrow>
             (let amp = put (get userConfig ''amp'') ''canonicalBase''
                          (if truthy (JStr (strip_slash canonicalBase))
                           then JStr (strip_slash canonicalBase) else JStr [])
              in Inr (put userConfig ''amp'' amp))
         | _ \<Rightarrow> Inl TypeError)
      else Inr userConfig)"

definition check_runtimeConfig :: "jsval \<Rightarrow> jserror + jsval" where
  "check_runtimeConfig userConfig =
     (if truthy (get userConfig ''target'') \<and>
         \<not> strict_eq (get userConfig ''target'') (JStr ''server'') \<and>
         ((truthy (get userConfig ''publicRuntimeConfig'') \<and>
           length (own_keys (get userConfig ''publicRuntimeConfig'')) \<noteq> 0) \<or>
          (truthy (get userConfig ''serverRuntimeConfig'') \<and>
           length (own_keys (get userConfig ''serverRuntimeConfig'')) \<noteq> 0))
      then Inl (Error runtimeConfig_message)
      else Inr userConfig)"

definition check_reactMode :: "world \<Rightarrow> jsval \<Rightarrow> jserror + jsval" where
  "check_reactMode w userConfig =
     (if truthy (get userConfig ''experimental'') \<and>
         truthy (get (get userConfig ''experimental'') ''reactMode'') \<and>
         \<not> array_includes reactModes (get (get userConfig ''experimental'') ''reactMode'')
      then Inl (Error (reactMode_message w (get (get userConfig ''experimental'') ''reactMode'')))
      else Inr userConfig)"

definition validate :: "world \<Rightarrow> jsval \<Rightarrow> jserror + jsval" where
  "validate w userConfig =
     (case check_target w userConfig of
        Inl e \<Rightarrow> Inl e
      | Inr u1 \<Rightarrow>
          (case strip_canonicalBase u1 of
             Inl e \<Rightarrow> Inl e
           | Inr u2 \<Rightarrow>
               (case check_runtimeConfig u2 of
                  Inl e \<Rightarrow> Inl e
                | Inr u3 \<Rightarrow> check_reactMode w u3)))"

definition configBaseName :: string where
  "configBaseName = basename_ext CONFIG_FILE (extname CONFIG_FILE)"

text \<open>
  Lines 210 to 214: the module of the file at \<open>path\<close> is loaded, and its default export
  (or, when that is falsy, the module itself) is normalized.
\<close>

definition load_module ::
  "world \<Rightarrow> state \<Rightarrow> string \<Rightarrow> string \<Rightarrow> state \<times> (jserror + jsval)" where
  "load_module w st phase path =
     (let st1 = record_event (Require path) st
      in case require w path of
           Inl e \<Rightarrow> (st1, Inl e)
         | Inr userConfigModule \<Rightarrow>
             (case read_member userConfigModule ''default'' of
                Inl e \<Rightarrow> (st1, Inl e)
              | Inr dflt \<Rightarrow>
                  normalizeConfig w st1 phase (if truthy dflt then dflt else userConfigModule)))"

text \<open>Lines 215 to 258: the checks, then the merge with the origin set to the file's name.\<close>

definition validate_and_merge :: "world \<Rightarrow> state \<Rightarrow> jsval \<Rightarrow> state \<times> (jserror + jsval)" where
  "validate_and_merge w st userConfig =
     (case validate w userConfig of
        Inl e \<Rightarrow> (st, Inl e)
      | Inr userConfig' \<Rightarrow>
          (let (literal, st1) =
                 new_object st (spread [(''configOrigin'', JStr CONFIG_FILE)] userConfig')
           in assignDefaults w st1 literal))"

text \<open>Lines 210 to 258: a configuration file was found at \<open>path\<close>.\<close>

definition loadConfig_found ::
  "world \<Rightarrow> state \<Rightarrow> string \<Rightarrow> string \<Rightarrow> state \<times> (jserror + jsval)" where
  "loadConfig_found w st phase path =
     (case load_module w st phase path of
        (st1, Inl e) \<Rightarrow> (st1, Inl e)
      | (st1, Inr userConfig) \<Rightarrow> validate_and_merge w st1 userConfig)"

text \<open>Lines 259 to 278: no configuration file was found.\<close>

definition loadConfig_not_found ::
  "world \<Rightarrow> state \<Rightarrow> string \<Rightarrow> state \<times> (jserror + jsval)" where
  "loadConfig_not_found w st dir =
     (let names = [configBaseName @ ''.jsx'', configBaseName @ ''.tsx'', configBaseName @ ''.json''];
          st1 = record_event (FindUp names dir) st
      in case findUp_sync w names dir of
           Some nonJsPath \<Rightarrow>
             if length nonJsPath \<noteq> 0 then (st1, Inl (Error (nonJs_message nonJsPath)))
             else (st1, Inr (defaultConfig w))
         | None \<Rightarrow> (st1, Inr (defaultConfig w)))"

text \<open>
  \<^verbatim>\<open>loadConfig(phase, dir, customConfig)\<close>; an absent third argument is \<^verbatim>\<open>undefined\<close>.
\<close>

definition loadConfig ::
  "world \<Rightarrow> state \<Rightarrow> string \<Rightarrow> string \<Rightarrow> jsval \<Rightarrow> state \<times> (jserror + jsval)" where
  "loadConfig w st phase dir customConfig =
     (if truthy customConfig
      then
        (let (literal, st1) =
               new_object st (spread [(''configOrigin'', JStr ''server'')] customConfig)
         in assignDefaults w st1 literal)
      else
        (let names = [configBaseName @ ''.js'', configBaseName @ ''.ts''];
             st1 = record_event (FindUp names dir) st
         in case findUp_sync w names dir of
              Some path \<Rightarrow>
                if length path \<noteq> 0 then loadConfig_found w st1 phase path
                else loadConfig_not_found w st1 dir
            | None \<Rightarrow> loadConfig_not_found w st1 dir))"

definition isTargetLikeServerless :: "string \<Rightarrow> bool" where
  "isTargetLikeServerless target =
     (let isServerless = (target = ''serverless'');
          isServerlessTrace = (target = ''experimental-serverless-trace'')
      in isServerless \<or> isServerlessTrace)"

text \<open>
  The user configuration that \<^verbatim>\<open>loadConfig\<close> holds when it reaches line 215, with the
  state at that point: there is no inline configuration, a file was found, and its module
  was loaded and normalized without a throw.
\<close>

definition userConfig_of_file ::
  "world \<Rightarrow> state \<Rightarrow> string \<Rightarrow> string \<Rightarrow> jsval \<Rightarrow> (state \<times> jsval) option" where
  "userConfig_of_file w st phase dir customConfig =
     (if truthy customConfig then None
      else
        (let names = [configBaseName @ ''.js'', configBaseName @ ''.ts''];
             st1 = record_event (FindUp names dir) st
         in case findUp_sync w names dir of
              Some path \<Rightarrow>
                if length path \<noteq> 0
                then (case load_module w st1 phase path of
                        (st2, Inl e) \<Rightarrow> None
                      | (st2, Inr userConfig) \<Rightarrow> Some (st2, userConfig))
                else None
            | None \<Rightarrow> None))"

text \<open>\<^verbatim>\<open>path && path.length\<close> on what \<^verbatim>\<open>findUp.sync\<close> returned.\<close>

fun found :: "string option \<Rightarrow> bool" where
  "found None = False"
| "found (Some path) = (length path \<noteq> 0)"

text \<open>Several calls of \<^verbatim>\<open>loadConfig\<close> in one process, one after the other.\<close>

fun loadConfig_calls :: "state \<Rightarrow> (world \<times> string \<times> string \<times> jsval) list \<Rightarrow> state" where
  "loadConfig_calls st [] = st"
| "loadConfig_calls st ((w, phase, dir, customConfig) # calls) =
     loadConfig_calls (fst (loadConfig w st phase dir customConfig)) calls"

section \<open>An environment to run the loader in\<close>

text \<open>
  A file system given as the list of its modules, each under its absolute path, with a
  \<^verbatim>\<open>find-up\<close> that walks from the working directory to the root, and functions that
  return a fixed value whatever their arguments.
\<close>

fun split_slash :: "string \<Rightarrow> string \<Rightarrow> string list" where
  "split_slash cur [] = (if cur = [] then [] else [rev cur])"
| "split_slash cur (c # cs) =
     (if c = CHR ''/'' then (if cur = [] then [] else [rev cur]) @ split_slash [] cs
      else split_slash (c # cur) cs)"

definition ancestors :: "string \<Rightarrow> string list" where
  "ancestors dir =
     (let cs = split_slash [] dir
      in map (\<lambda>n. concat (map (\<lambda>c. CHR ''/'' # c) (take n cs))) (rev [0..<Suc (length cs)]))"

definition walk_up :: "string list \<Rightarrow> string list \<Rightarrow> string \<Rightarrow> string option" where
  "walk_up files names cwd =
     List.find (\<lambda>p. p \<in> set files)
       (concat (map (\<lambda>d. map (\<lambda>n. d @ ''/'' @ n) names) (ancestors cwd)))"

definition disk :: "(string \<times> jsval) list \<Rightarrow> (nat \<times> jsval) list \<Rightarrow> world" where
  "disk files fns =
     \<lparr>circle_node_total = 0,
      os_cpu_count = 4,
      findUp_sync = walk_up (map fst files),
      require = (\<lambda>path. case map_of files path of
                          Some m \<Rightarrow> Inr m
                        | None \<Rightarrow> Inl (Thrown (JStr ''Cannot find module''))),
      call_fn = (\<lambda>f args. case map_of fns f of Some v \<Rightarrow> Inr v | None \<Rightarrow> Inl TypeError),
      fn_source = (\<lambda>f. ''function () {}'')\<rparr>"

section \<open>Notions used in the statements\<close>

text \<open>
  The properties that the default value under a key contributes to a merge: its own
  enumerable properties when it is truthy, none otherwise.
\<close>

definition default_map :: "world \<Rightarrow> string \<Rightarrow> (string \<rightharpoonup> jsval)" where
  "default_map w key =
     (if truthy (get (defaultConfig w) key) then map_of (own_props (get (defaultConfig w) key))
      else Map.empty)"

text \<open>
  What the loop of \<^verbatim>\<open>assignDefaults\<close> leaves under a key that held \<open>v\<close>: for a plain
  object a new object, the default's properties overridden by those of \<open>v\<close>; any other
  value as it was.
\<close>

definition merged_value :: "world \<Rightarrow> string \<Rightarrow> jsval \<Rightarrow> jsval \<Rightarrow> bool" where
  "merged_value w key v r =
     (if is_plain_object v
      then \<exists>j ps. r = JObj j ps \<and> map_of ps = default_map w key ++ map_of (own_props v)
      else r = v)"

text \<open>
  How the flag and the console of a later state relate to an earlier one when the
  warning was written at most once in between.
\<close>

definition quiet_or_first :: "state \<Rightarrow> state \<Rightarrow> bool" where
  "quiet_or_first st st' =
     ((warned st' = warned st \<and> console st' = console st) \<or>
      (\<not> warned st \<and> warned st' \<and> console st' = console st @ warning_lines))"

section \<open>Lemmas: property lists\<close>

lemma map_of_put_prop: "map_of (put_prop ps k x) = (map_of ps)(k \<mapsto> x)"
  by (induction ps) (auto simp: fun_eq_iff)

lemma keys_put_prop: "fst ` set (put_prop ps k x) = insert k (fst ` set ps)"
  by (induction ps) auto

lemma map_of_put_all: "map_of (put_all acc qs) = map_of acc ++ map_of (rev qs)"
proof (induction qs arbitrary: acc)
  case Nil
  show ?case by simp
next
  case (Cons q qs)
  have "map_of (put_all acc (q # qs)) = (map_of acc)(fst q \<mapsto> snd q) ++ map_of (rev qs)"
    by (simp only: put_all.simps Cons.IH map_of_put_prop)
  also have "\<dots> = map_of acc ++ map_of (rev (q # qs))"
    by (cases q) (simp add: fun_eq_iff map_add_def split: option.splits)
  finally show ?case .
qed

lemma map_of_rev_distinct: "distinct (map fst qs) \<Longrightarrow> map_of (rev qs) = map_of qs"
  by (rule map_of_inject_set[THEN iffD2]) (simp_all add: distinct_rev rev_map[symmetric])

lemma map_of_filter_key:
  "map_of (filter (\<lambda>q. fst q \<noteq> a) ps) k = (if k = a then None else map_of ps k)"
  by (induction ps) auto

lemma map_of_first_bindings: "map_of (first_bindings ps) = map_of ps"
  by (induction ps) (auto simp: fun_eq_iff map_of_filter_key)

lemma keys_first_bindings: "fst ` set (first_bindings ps) = fst ` set ps"
  by (metis dom_map_of_conv_image_fst map_of_first_bindings)

lemma distinct_first_bindings: "distinct (map fst (first_bindings ps))"
  by (induction ps) (auto simp: distinct_map_filter)

lemma digit_inj: "n < 10 \<Longrightarrow> m < 10 \<Longrightarrow> digit n = digit m \<Longrightarrow> n = m"
proof -
  assume n: "n < 10" and m: "m < 10" and e: "digit n = digit m"
  have "\<forall>n<10. \<forall>m<10. digit n = digit m \<longrightarrow> n = m"
    by (simp add: digit_def All_less_Suc2 numeral_nat)
  with n m e show ?thesis by blast
qed

lemma dec_nonempty: "dec n \<noteq> []"
  by (subst dec.simps) simp

lemma dec_inj: "dec n = dec m \<Longrightarrow> n = m"
proof (induction n arbitrary: m rule: dec.induct)
  case (1 n)
  show ?case
  proof (cases "n < 10")
    case True
    show ?thesis
    proof (cases "m < 10")
      case m: True
      from "1.prems" True m have "digit n = digit m"
        by (simp add: dec.simps[of n] dec.simps[of m])
      with True m show ?thesis by (rule digit_inj)
    next
      case m: False
      from "1.prems" True m show ?thesis
        using dec_nonempty[of "m div 10"]
        by (simp add: dec.simps[of n] dec.simps[of m])
    qed
  next
    case False
    show ?thesis
    proof (cases "m < 10")
      case m: True
      from "1.prems" False m show ?thesis
        using dec_nonempty[of "n div 10"]
        by (simp add: dec.simps[of n] dec.simps[of m])
    next
      case m: False
      from "1.prems" False m
      have a: "dec (n div 10) = dec (m div 10)" and b: "digit (n mod 10) = digit (m mod 10)"
        by (simp_all add: dec.simps[of n] dec.simps[of m])
      from "1.IH"[OF False a] have "n div 10 = m div 10" .
      moreover from b have "n mod 10 = m mod 10" by (intro digit_inj) simp_all
      ultimately show ?thesis by (metis div_mult_mod_eq)
    qed
  qed
qed

lemma keys_index_from: "map fst (index_from i xs) = map dec [i..<i + length xs]"
  by (induction xs arbitrary: i) (simp_all add: upt_rec)

lemma distinct_index_from: "distinct (map fst (index_from i xs))"
  by (simp add: keys_index_from distinct_map inj_on_def dec_inj)

lemma distinct_own_props: "distinct (map fst (own_props v))"
  by (cases v) (simp_all add: distinct_first_bindings distinct_index_from)

lemma map_of_spread: "map_of (spread acc v) = map_of acc ++ map_of (own_props v)"
  by (simp add: spread_def map_of_put_all map_of_rev_distinct distinct_own_props)

lemma get_JObj:
  "get (JObj i ps) k =
     (case map_of ps k of Some x \<Rightarrow> x
      | None \<Rightarrow> if k = ''constructor'' then Object_ctor else JUndefined)"
  by (simp add: get_def map_of_first_bindings split: option.splits)

lemma get_put:
  "get (put (JObj i ps) k x) k' = (if k' = k then x else get (JObj i ps) k')"
  by (simp add: get_JObj map_of_put_prop)

lemma own_keys_JObj: "set (own_keys (JObj i ps)) = fst ` set ps"
  by (simp add: own_keys_def keys_first_bindings)

section \<open>Lemmas: the loop of assignDefaults\<close>

lemma experimentalWarning_trace [simp]: "trace (experimentalWarning st) = trace st"
  by (simp add: experimentalWarning_def execOnce_def)

lemma experimentalWarning_fresh [simp]: "fresh (experimentalWarning st) = fresh st"
  by (simp add: experimentalWarning_def execOnce_def)

lemma map_of_merge_default:
  "map_of (merge_default w key v) = default_map w key ++ map_of (own_props v)"
  by (simp add: merge_default_def map_of_spread default_map_def)

lemma warn_experimental_trace [simp]: "trace (warn_experimental w u key st) = trace st"
  by (simp add: warn_experimental_def)

lemma warn_experimental_fresh [simp]: "fresh (warn_experimental w u key st) = fresh st"
  by (simp add: warn_experimental_def)

lemma merged_value_trans:
  assumes "merged_value w key v r1" "merged_value w key r1 r2"
  shows "merged_value w key v r2"
proof (cases "is_plain_object v")
  case True
  with assms(1) obtain j ps where r1: "r1 = JObj j ps"
    and m: "map_of ps = default_map w key ++ map_of (own_props v)"
    by (auto simp: merged_value_def)
  show ?thesis
  proof (cases "is_plain_object r1")
    case p: True
    with assms(2) obtain j' ps' where "r2 = JObj j' ps'"
      and "map_of ps' = default_map w key ++ map_of (own_props r1)"
      by (auto simp: merged_value_def)
    with r1 m True show ?thesis
      by (auto simp: merged_value_def map_of_first_bindings fun_eq_iff map_add_def
               split: option.splits)
  next
    case False
    with assms(2) have "r2 = r1" by (simp add: merged_value_def)
    with r1 m True show ?thesis by (auto simp: merged_value_def)
  qed
next
  case False
  with assms(1) have "r1 = v" by (simp add: merged_value_def)
  with assms(2) show ?thesis by simp
qed

lemma merged_value_refl_step:
  "\<not> is_plain_object v \<Longrightarrow> merged_value w key v v"
  by (simp add: merged_value_def)

lemma assign_keys_JObj:
  "assign_keys w st (JObj i ps) keys = (st', Inr r) \<Longrightarrow> \<exists>ps'. r = JObj i ps'"
proof (induction keys arbitrary: st ps)
  case Nil
  then show ?case by auto
next
  case (Cons key keys)
  then show ?case
    by (auto simp: Let_def new_object_def split: if_splits)
qed

lemma assign_keys_error:
  "assign_keys w st u keys = (st', Inl e) \<Longrightarrow> e = Error distDir_message"
proof (induction keys arbitrary: st u)
  case Nil
  then show ?case by simp
next
  case (Cons key keys)
  then show ?case
    by (auto simp: Let_def new_object_def split: if_splits)
qed

lemma assign_keys_trace:
  "trace (fst (assign_keys w st u keys)) = trace st"
proof (induction keys arbitrary: st u)
  case Nil
  then show ?case by simp
next
  case (Cons key keys)
  then show ?case
    by (auto simp: Let_def new_object_def split: if_splits)
qed


lemma digit_in: "k < 10 \<Longrightarrow> digit k \<in> set ''0123456789''"
proof -
  have "\<forall>k<10. digit k \<in> set ''0123456789''"
    by (simp add: digit_def All_less_Suc2 numeral_nat)
  then show "k < 10 \<Longrightarrow> digit k \<in> set ''0123456789''" by blast
qed

lemma dec_digits: "set (dec n) \<subseteq> set ''0123456789''"
proof (induction n rule: dec.induct)
  case (1 n)
  show ?case
  proof (cases "n < 10")
    case True
    then show ?thesis using digit_in[of n] by (subst dec.simps) simp
  next
    case False
    then show ?thesis using "1.IH" digit_in[of "n mod 10"] by (subst dec.simps) simp
  qed
qed

lemma index_key_digits: "map_of (index_from i xs) k = Some x \<Longrightarrow> set k \<subseteq> set ''0123456789''"
proof (induction xs arbitrary: i)
  case Nil
  then show ?case by simp
next
  case (Cons y ys)
  then show ?case using dec_digits[of i] by (auto split: if_splits)
qed

lemma index_from_constructor [simp]: "map_of (index_from i xs) ''constructor'' = None"
proof (cases "map_of (index_from i xs) ''constructor''")
  case None
  then show ?thesis .
next
  case (Some x)
  from index_key_digits[OF this] show ?thesis by simp
qed

lemma is_plain_object_JObj: "is_plain_object v \<Longrightarrow> \<exists>i ps. v = JObj i ps"
  by (cases v) (simp_all add: is_plain_object_def get_def Object_ctor_def String_ctor_def
      Number_ctor_def Boolean_ctor_def Array_ctor_def Function_ctor_def)

lemma is_plain_object_not_string: "is_plain_object v \<Longrightarrow> \<not> strict_eq v (JStr s)"
  by (auto dest: is_plain_object_JObj)

lemma assign_keys_step:
  "assign_keys w st u (key # keys) =
     (if key = ''distDir'' \<and> strict_eq (get u key) (JStr ''public'')
      then (warn_experimental w u key st, Inl (Error distDir_message))
      else if is_plain_object (get u key)
      then assign_keys w ((warn_experimental w u key st)\<lparr>fresh := Suc (fresh st)\<rparr>)
             (put u key (JObj (fresh st) (merge_default w key (get u key)))) keys
      else assign_keys w (warn_experimental w u key st) u keys)"
  by (auto simp: Let_def new_object_def)

declare assign_keys.simps(2) [simp del]

lemma assign_keys_get:
  "assign_keys w st (JObj i ps) keys = (st', Inr (JObj i ps')) \<Longrightarrow>
     (k \<notin> set keys \<longrightarrow> map_of ps' k = map_of ps k) \<and>
     (k \<in> set keys \<longrightarrow> merged_value w k (get (JObj i ps) k) (get (JObj i ps') k))"
proof (induction keys arbitrary: st ps)
  case Nil
  then show ?case by simp
next
  case (Cons key keys)
  define u where "u = JObj i ps"
  define m where "m = JObj (fresh st) (merge_default w key (get u key))"
  show ?case
  proof (cases "is_plain_object (get u key)")
    case True
    from Cons.prems True obtain st1
      where rec: "assign_keys w st1 (JObj i (put_prop ps key m)) keys = (st', Inr (JObj i ps'))"
      unfolding assign_keys_step u_def m_def by (auto split: if_splits)
    have step: "merged_value w key (get u key) m"
      using True by (simp add: merged_value_def map_of_merge_default m_def)
    have g1: "get (JObj i (put_prop ps key m)) k = (if k = key then m else get u k)"
      by (simp add: get_JObj map_of_put_prop u_def)
    have m1: "k \<noteq> key \<Longrightarrow> map_of (put_prop ps key m) k = map_of ps k"
      by (simp add: map_of_put_prop)
    note IH = Cons.IH[OF rec]
    show ?thesis
    proof (cases "k = key")
      case k: True
      show ?thesis
      proof (cases "key \<in> set keys")
        case in_keys: True
        with IH k g1 have "merged_value w key m (get (JObj i ps') key)" by simp
        with step have "merged_value w key (get u key) (get (JObj i ps') key)"
          by (rule merged_value_trans)
        with k show ?thesis by (simp add: u_def)
      next
        case False
        with IH k have "map_of ps' key = map_of (put_prop ps key m) key" by simp
        then have "get (JObj i ps') key = m" by (simp add: get_JObj map_of_put_prop)
        with step k show ?thesis by (simp add: u_def)
      qed
    next
      case False
      with IH g1 m1 show ?thesis by (auto simp: u_def)
    qed
  next
    case False
    from Cons.prems False obtain st1
      where rec: "assign_keys w st1 (JObj i ps) keys = (st', Inr (JObj i ps'))"
      unfolding assign_keys_step u_def by (auto split: if_splits)
    have step: "merged_value w key (get u key) (get u key)"
      using False by (rule merged_value_refl_step)
    note IH = Cons.IH[OF rec]
    show ?thesis
    proof (cases "k = key")
      case k: True
      show ?thesis
      proof (cases "key \<in> set keys")
        case in_keys: True
        with IH k show ?thesis by (simp add: u_def)
      next
        case False
        with IH k have "map_of ps' key = map_of ps key" by simp
        then have "get (JObj i ps') key = get u key" by (simp add: get_JObj u_def)
        with step k show ?thesis by (simp add: u_def)
      qed
    next
      case False
      with IH show ?thesis by auto
    qed
  qed
qed

section \<open>Lemmas: no configuration file\<close>


lemma configBaseName_eq: "configBaseName = ''next.config''"
  by (simp add: configBaseName_def CONFIG_FILE_def basename_ext_def extname_def basename_def
      suffix_def Let_def)

lemma found_iff: "found r = (\<exists>path. r = Some path \<and> path \<noteq> [])"
  by (cases r) auto

lemma loadConfig_not_found_eq:
  "snd (loadConfig_not_found w st dir) =
     (case findUp_sync w [''next.config.jsx'', ''next.config.tsx'', ''next.config.json''] dir of
        Some nonJsPath \<Rightarrow>
          if nonJsPath \<noteq> [] then Inl (Error (nonJs_message nonJsPath)) else Inr (defaultConfig w)
      | None \<Rightarrow> Inr (defaultConfig w))"
  by (simp add: loadConfig_not_found_def configBaseName_eq Let_def split: option.splits)

section \<open>Lemmas: what the merge leaves under each key\<close>

lemma assign_keys_dom:
  "assign_keys w st (JObj i ps) keys = (st', Inr (JObj i ps')) \<Longrightarrow>
     map_of ps k \<noteq> None \<Longrightarrow> map_of ps' k \<noteq> None"
proof (induction keys arbitrary: st ps)
  case Nil
  then show ?case by simp
next
  case (Cons key keys)
  show ?case
  proof (cases "is_plain_object (get (JObj i ps) key)")
    case True
    from Cons.prems(1) True obtain st1 m
      where rec: "assign_keys w st1 (JObj i (put_prop ps key m)) keys = (st', Inr (JObj i ps'))"
      unfolding assign_keys_step by (auto split: if_splits)
    from Cons.prems(2) have "map_of (put_prop ps key m) k \<noteq> None"
      by (simp add: map_of_put_prop)
    with Cons.IH[OF rec] show ?thesis .
  next
    case False
    from Cons.prems(1) False obtain st1
      where rec: "assign_keys w st1 (JObj i ps) keys = (st', Inr (JObj i ps'))"
      unfolding assign_keys_step by (auto split: if_splits)
    from Cons.IH[OF rec Cons.prems(2)] show ?thesis .
  qed
qed

lemma assignDefaults_Inr:
  assumes "assignDefaults w st (JObj i ps) = (st', Inr r)"
  obtains st1 ps' where
    "assign_keys w st (JObj i ps) (own_keys (JObj i ps)) = (st1, Inr (JObj i ps'))"
    "r = JObj (fresh st1) (spread (spread [] (defaultConfig w)) (JObj i ps'))"
proof -
  obtain st1 x where a: "assign_keys w st (JObj i ps) (own_keys (JObj i ps)) = (st1, x)"
    by (cases "assign_keys w st (JObj i ps) (own_keys (JObj i ps))") auto
  with assms obtain u' where x: "x = Inr u'"
    by (cases x) (auto simp: assignDefaults_def)
  with a obtain ps' where u': "u' = JObj i ps'"
    using assign_keys_JObj by blast
  from assms a x u' have "r = JObj (fresh st1) (spread (spread [] (defaultConfig w)) (JObj i ps'))"
    by (auto simp: assignDefaults_def new_object_def)
  with a x u' that show ?thesis by blast
qed

lemma get_merged_result:
  "get (JObj n (spread (spread [] (defaultConfig w)) (JObj i ps'))) k =
     (case map_of ps' k of Some y \<Rightarrow> y | None \<Rightarrow> get (defaultConfig w) k)"
  by (simp add: get_JObj map_of_spread map_of_first_bindings map_add_def defaultConfig_def
      split: option.splits)

lemma merged_value_not_fallback:
  "merged_value w k v (if k = ''constructor'' then Object_ctor else JUndefined) \<Longrightarrow>
     v = (if k = ''constructor'' then Object_ctor else JUndefined)"
  by (auto simp: merged_value_def Object_ctor_def split: if_splits)

lemma assignDefaults_get:
  assumes "assignDefaults w st (JObj i ps) = (st', Inr r)"
  shows "map_of ps k = None \<Longrightarrow> get r k = get (defaultConfig w) k"
    and "map_of ps k = Some v \<Longrightarrow> merged_value w k v (get r k)"
proof -
  from assms obtain st1 ps' where
    a: "assign_keys w st (JObj i ps) (own_keys (JObj i ps)) = (st1, Inr (JObj i ps'))" and
    r: "r = JObj (fresh st1) (spread (spread [] (defaultConfig w)) (JObj i ps'))"
    by (rule assignDefaults_Inr)
  note g = assign_keys_get[OF a, of k]
  {
    assume n: "map_of ps k = None"
    then have "k \<notin> set (own_keys (JObj i ps))"
      by (simp add: own_keys_JObj map_of_eq_None_iff)
    with g n have "map_of ps' k = None" by simp
    with r show "get r k = get (defaultConfig w) k" by (simp add: get_merged_result)
  next
    assume s: "map_of ps k = Some v"
    then have "k \<in> set (own_keys (JObj i ps))"
      by (metis domI dom_map_of_conv_image_fst own_keys_JObj)
    with g s have m: "merged_value w k v (get (JObj i ps') k)" by (simp add: get_JObj[of i ps])
    from assign_keys_dom[OF a, of k] s obtain y where y: "map_of ps' k = Some y" by auto
    with m r show "merged_value w k v (get r k)"
      by (simp add: get_merged_result get_JObj[of i ps'])
  }
qed

lemma own_keys_result:
  "set (own_keys (JObj n (spread (spread [] d) u))) = set (own_keys d) \<union> set (own_keys u)"
proof -
  have "fst ` set (spread (spread [] d) u) = dom (map_of (spread (spread [] d) u))"
    by (simp add: dom_map_of_conv_image_fst)
  also have "\<dots> = dom (map_of (own_props d)) \<union> dom (map_of (own_props u))"
    by (simp add: map_of_spread Un_commute)
  finally show ?thesis
    by (simp add: own_keys_def dom_map_of_conv_image_fst keys_first_bindings)
qed

section \<open>Lemmas: what assignDefaults throws, and what it depends on\<close>

lemma get_put_prop:
  "get (JObj i (put_prop ps k x)) k' = (if k' = k then x else get (JObj i ps) k')"
  by (simp add: get_JObj map_of_put_prop)

lemma strict_eq_JStr: "strict_eq v (JStr s) = (v = JStr s)"
  by (cases v) auto

lemma get_own_key: "get u k = JStr s \<Longrightarrow> k \<noteq> ''constructor'' \<Longrightarrow> k \<in> set (own_keys u)"
  by (auto simp: get_def own_keys_def split: option.splits dest: map_of_SomeD intro: rev_image_eqI)

lemma get_put_distDir:
  assumes "key \<noteq> ''distDir'' \<or> is_plain_object (get u key)"
  shows "(get (put u key (JObj n m)) ''distDir'' = JStr s) = (get u ''distDir'' = JStr s)"
proof (cases u)
  case (JObj i ps)
  with assms show ?thesis
    using is_plain_object_not_string[of "get u key" s]
    by (auto simp: get_put_prop strict_eq_JStr)
qed simp_all

lemma assign_keys_raises:
  "isl (snd (assign_keys w st u keys)) =
     (''distDir'' \<in> set keys \<and> get u ''distDir'' = JStr ''public'')"
proof (induction keys arbitrary: st u)
  case Nil
  show ?case by simp
next
  case (Cons key keys)
  show ?case
  proof (cases "key = ''distDir'' \<and> get u ''distDir'' = JStr ''public''")
    case True
    then show ?thesis by (simp add: assign_keys_step strict_eq_JStr)
  next
    case no: False
    show ?thesis
    proof (cases "is_plain_object (get u key)")
      case True
      with no have "isl (snd (assign_keys w st u (key # keys))) =
          (''distDir'' \<in> set keys \<and>
            get (put u key (JObj (fresh st) (merge_default w key (get u key)))) ''distDir''
              = JStr ''public'')"
        by (auto simp: assign_keys_step strict_eq_JStr Cons.IH)
      also have "\<dots> = (''distDir'' \<in> set keys \<and> get u ''distDir'' = JStr ''public'')"
        using True by (simp add: get_put_distDir)
      finally show ?thesis using no by auto
    next
      case False
      with no show ?thesis by (auto simp: assign_keys_step strict_eq_JStr Cons.IH)
    qed
  qed
qed

lemma assignDefaults_raises:
  "isl (snd (assignDefaults w st u)) = (get u ''distDir'' = JStr ''public'')"
proof -
  have "isl (snd (assignDefaults w st u)) = isl (snd (assign_keys w st u (own_keys u)))"
    by (simp add: assignDefaults_def new_object_def split: prod.splits sum.splits)
  then show ?thesis
    using get_own_key[of u "''distDir''" "''public''"] by (auto simp: assign_keys_raises)
qed

lemma assignDefaults_error:
  "snd (assignDefaults w st u) = Inl e \<Longrightarrow> e = Error distDir_message"
  using assign_keys_error[of w st u "own_keys u"]
  by (auto simp: assignDefaults_def new_object_def split: prod.splits sum.splits)

lemma assignDefaults_throws_iff:
  "(snd (assignDefaults w st u) = Inl (Error distDir_message)) = (get u ''distDir'' = JStr ''public'')"
  using assignDefaults_raises[of w st u] assignDefaults_error[of w st u]
  by (cases "snd (assignDefaults w st u)") auto

lemma assignDefaults_trace: "trace (fst (assignDefaults w st u)) = trace st"
  using assign_keys_trace[of w st u "own_keys u"]
  by (auto simp: assignDefaults_def new_object_def split: prod.splits sum.splits)

lemma assign_keys_cong:
  "defaultConfig w = defaultConfig w' \<Longrightarrow> assign_keys w st u keys = assign_keys w' st u keys"
proof (induction keys arbitrary: st u)
  case Nil
  show ?case by simp
next
  case (Cons key keys)
  from Cons.prems have "warn_experimental w u key st = warn_experimental w' u key st"
    and "merge_default w key (get u key) = merge_default w' key (get u key)"
    by (simp_all add: warn_experimental_def merge_default_def)
  then show ?case
    by (simp only: assign_keys_step Cons.IH[OF Cons.prems])
qed

lemma assignDefaults_cong:
  "defaultConfig w = defaultConfig w' \<Longrightarrow> assignDefaults w st u = assignDefaults w' st u"
  unfolding assignDefaults_def by (simp only: assign_keys_cong[of w w'])

lemma defaultConfig_environment:
  "defaultConfig (w\<lparr>findUp_sync := f, require := r, call_fn := c, fn_source := s\<rparr>) = defaultConfig w"
  by (simp add: defaultConfig_def default_cpus_def)

lemma get_literal:
  "k \<noteq> ''configOrigin'' \<Longrightarrow> k \<noteq> ''constructor'' \<Longrightarrow>
     get (JObj n (spread [(''configOrigin'', x)] u)) k = get u k"
  by (simp add: get_JObj map_of_spread map_add_def get_def[of u] split: option.splits)

lemma loadConfig_inline_eq:
  "truthy customConfig \<Longrightarrow>
     loadConfig w st phase dir customConfig =
       assignDefaults w (st\<lparr>fresh := Suc (fresh st)\<rparr>)
         (JObj (fresh st) (spread [(''configOrigin'', JStr ''server'')] customConfig))"
  by (simp add: loadConfig_def new_object_def)

section \<open>Lemmas: the checks on a configuration file\<close>

lemma loadConfig_of_file:
  "userConfig_of_file w st phase dir customConfig = Some (st2, userConfig) \<Longrightarrow>
     loadConfig w st phase dir customConfig = validate_and_merge w st2 userConfig"
  by (auto simp: userConfig_of_file_def loadConfig_def loadConfig_found_def Let_def
      split: if_splits option.splits prod.splits sum.splits)

lemma check_target_cases:
  "check_target w u =
     (if u = JUndefined \<or> u = JNull then Inl TypeError
      else if truthy (get u ''target'') \<and> \<not> array_includes targets (get u ''target'')
      then Inl (Error (target_message w (get u ''target'')))
      else Inr u)"
  by (simp add: check_target_def read_member_def)

lemma strip_canonicalBase_get:
  "strip_canonicalBase u = Inr u' \<Longrightarrow> k \<noteq> ''amp'' \<Longrightarrow> get u' k = get u k"
  by (cases u) (auto simp: strip_canonicalBase_def get_put_prop Let_def
      split: if_splits jsval.splits)

lemma strip_canonicalBase_error: "strip_canonicalBase u = Inl e \<Longrightarrow> e = TypeError"
  by (auto simp: strip_canonicalBase_def Let_def split: if_splits jsval.splits)

lemma check_runtimeConfig_cases:
  "check_runtimeConfig u = Inr u \<or> check_runtimeConfig u = Inl (Error runtimeConfig_message)"
  by (simp add: check_runtimeConfig_def)

lemma check_reactMode_cases:
  "check_reactMode w u = Inr u \<or>
   check_reactMode w u = Inl (Error (reactMode_message w (get (get u ''experimental'') ''reactMode'')))"
  by (simp add: check_reactMode_def)

lemma check_target_Inr: "check_target w u = Inr u' \<Longrightarrow> u' = u"
  by (simp add: check_target_cases split: if_splits)

lemma check_runtimeConfig_Inr: "check_runtimeConfig u = Inr u' \<Longrightarrow> u' = u"
  by (simp add: check_runtimeConfig_def split: if_splits)

lemma check_reactMode_Inr: "check_reactMode w u = Inr u' \<Longrightarrow> u' = u"
  by (simp add: check_reactMode_def split: if_splits)

lemma validate_Inr:
  assumes "validate w u = Inr u'"
  shows "check_target w u = Inr u \<and> strip_canonicalBase u = Inr u' \<and>
         check_runtimeConfig u' = Inr u' \<and> check_reactMode w u' = Inr u'"
proof -
  from assms obtain u1 where 1: "check_target w u = Inr u1"
    by (cases "check_target w u") (auto simp: validate_def)
  then have u1: "u1 = u" by (rule check_target_Inr)
  from assms 1 obtain u2 where 2: "strip_canonicalBase u1 = Inr u2"
    by (cases "strip_canonicalBase u1") (auto simp: validate_def)
  from assms 1 2 obtain u3 where 3: "check_runtimeConfig u2 = Inr u3"
    by (cases "check_runtimeConfig u2") (auto simp: validate_def)
  then have u3: "u3 = u2" by (rule check_runtimeConfig_Inr)
  from assms 1 2 3 have 4: "check_reactMode w u3 = Inr u'"
    by (simp add: validate_def)
  then have "u' = u3" by (rule check_reactMode_Inr)
  with 1 2 3 4 u1 u3 show ?thesis by simp
qed



lemma messages_distinct:
  "target_message w t \<noteq> distDir_message"
  "runtimeConfig_message \<noteq> distDir_message"
  "reactMode_message w m \<noteq> distDir_message"
  "target_message w t \<noteq> runtimeConfig_message"
  "reactMode_message w m \<noteq> runtimeConfig_message"
  "reactMode_message w m \<noteq> target_message w' t"
  by (simp_all add: target_message_def distDir_message_def runtimeConfig_message_def
      reactMode_message_def)

lemma validate_and_merge_cases:
  "validate_and_merge w st u =
     (case validate w u of
        Inl e \<Rightarrow> (st, Inl e)
      | Inr u' \<Rightarrow>
          assignDefaults w (st\<lparr>fresh := Suc (fresh st)\<rparr>)
            (JObj (fresh st) (spread [(''configOrigin'', JStr CONFIG_FILE)] u')))"
  by (simp add: validate_and_merge_def new_object_def split: sum.splits)

section \<open>Lemmas: the output directory of a file\<close>


section \<open>Lemmas: an inline configuration\<close>

lemma not_plain_string: "\<not> is_plain_object (JStr s)"
  using is_plain_object_JObj[of "JStr s"] by auto

section \<open>Lemmas: the target check\<close>

lemma targets_joined: "join '', '' targets = ''server, serverless, experimental-serverless-trace''"
  by (simp add: targets_def)

lemma validate_target_error:
  assumes "validate w u = Inl (Error (target_message w t))"
  shows "truthy (get u ''target'') \<and> \<not> array_includes targets (get u ''target'')"
proof (cases "check_target w u")
  case (Inl a)
  with assms have "a = Error (target_message w t)" by (simp add: validate_def)
  with Inl show ?thesis by (auto simp: check_target_cases split: if_splits)
next
  case 1: (Inr u1)
  show ?thesis
  proof (cases "strip_canonicalBase u1")
    case (Inl a)
    with assms 1 have "a = Error (target_message w t)" by (simp add: validate_def)
    with Inl show ?thesis by (auto dest: strip_canonicalBase_error)
  next
    case 2: (Inr u2)
    show ?thesis
    proof (cases "check_runtimeConfig u2")
      case (Inl a)
      with assms 1 2 have "a = Error (target_message w t)" by (simp add: validate_def)
      with Inl show ?thesis
        using check_runtimeConfig_cases[of u2] by (auto simp: messages_distinct messages_distinct[symmetric])
    next
      case 3: (Inr u3)
      with assms 1 2 have "check_reactMode w u3 = Inl (Error (target_message w t))"
        by (simp add: validate_def)
      then show ?thesis using check_reactMode_cases[of w u3] by (auto simp: messages_distinct messages_distinct[symmetric])
    qed
  qed
qed

lemma validate_and_merge_error:
  "snd (validate_and_merge w st u) = Inl e \<Longrightarrow> validate w u = Inl e \<or> e = Error distDir_message"
  by (auto simp: validate_and_merge_cases split: sum.splits dest: assignDefaults_error)

section \<open>Lemmas: the runtime configuration check\<close>

lemma own_keys_nonempty: "ps \<noteq> [] \<Longrightarrow> length (own_keys (JObj j ps)) \<noteq> 0"
  by (cases ps) (simp_all add: own_keys_def)

lemma validate_runtime_error:
  assumes "validate w u = Inl (Error runtimeConfig_message)"
  shows "truthy (get u ''target'') \<and> get u ''target'' \<noteq> JStr ''server''"
proof (cases "check_target w u")
  case (Inl a)
  with assms have "a = Error runtimeConfig_message" by (simp add: validate_def)
  with Inl show ?thesis
    by (auto simp: check_target_cases messages_distinct split: if_splits)
next
  case 1: (Inr u1)
  then have u1: "u1 = u" by (rule check_target_Inr)
  show ?thesis
  proof (cases "strip_canonicalBase u1")
    case (Inl a)
    with assms 1 have "a = Error runtimeConfig_message" by (simp add: validate_def)
    with Inl show ?thesis by (auto dest: strip_canonicalBase_error)
  next
    case 2: (Inr u2)
    with u1 have t: "get u2 ''target'' = get u ''target''"
      by (simp add: strip_canonicalBase_get)
    show ?thesis
    proof (cases "check_runtimeConfig u2")
      case (Inl a)
      with t show ?thesis
        by (auto simp: check_runtimeConfig_def strict_eq_JStr split: if_splits)
    next
      case 3: (Inr u3)
      with assms 1 2 have "check_reactMode w u3 = Inl (Error runtimeConfig_message)"
        by (simp add: validate_def)
      then show ?thesis
        using check_reactMode_cases[of w u3]
        by (auto simp: messages_distinct messages_distinct[symmetric])
    qed
  qed
qed

lemma validate_runtime_raises:
  assumes t: "truthy (get u ''target'')" "get u ''target'' \<noteq> JStr ''server''"
    and r: "(get u ''publicRuntimeConfig'' = JObj j ps \<and> ps \<noteq> []) \<or>
            (get u ''serverRuntimeConfig'' = JObj j ps \<and> ps \<noteq> [])"
  shows "validate w u =
           Inl (if \<not> array_includes targets (get u ''target'')
                then Error (target_message w (get u ''target''))
                else if isl (strip_canonicalBase u) then TypeError
                else Error runtimeConfig_message)"
proof (cases "array_includes targets (get u ''target'')")
  case False
  from t(1) have "u \<noteq> JUndefined" "u \<noteq> JNull" by (auto simp: get_def)
  with t False show ?thesis by (simp add: validate_def check_target_cases)
next
  case True
  from t(1) have "u \<noteq> JUndefined" "u \<noteq> JNull" by (auto simp: get_def)
  with True have 1: "check_target w u = Inr u" by (simp add: check_target_cases)
  show ?thesis
  proof (cases "strip_canonicalBase u")
    case (Inl e)
    then have "e = TypeError" by (rule strip_canonicalBase_error)
    with Inl 1 True show ?thesis by (simp add: validate_def)
  next
    case (Inr u2)
    then have g: "get u2 ''target'' = get u ''target''"
      "get u2 ''publicRuntimeConfig'' = get u ''publicRuntimeConfig''"
      "get u2 ''serverRuntimeConfig'' = get u ''serverRuntimeConfig''"
      by (simp_all add: strip_canonicalBase_get)
    with t r have "check_runtimeConfig u2 = Inl (Error runtimeConfig_message)"
      using own_keys_nonempty[of ps j]
      by (auto simp: check_runtimeConfig_def strict_eq_JStr)
    with Inr 1 True show ?thesis by (simp add: validate_def)
  qed
qed

section \<open>Lemmas: the canonical base\<close>

lemma strip_canonicalBase_string:
  assumes "map_of ps ''amp'' = Some (JObj j aps)" "map_of aps ''canonicalBase'' = Some (JStr s)"
    "s \<noteq> []"
  shows "strip_canonicalBase (JObj i ps) =
           Inr (JObj i (put_prop ps ''amp''
                  (JObj j (put_prop aps ''canonicalBase'' (JStr (strip_slash s))))))"
  using assms by (simp add: strip_canonicalBase_def get_JObj)

lemma merged_value_field:
  assumes "merged_value w key (JObj j aps) r" "map_of aps k = Some x"
  shows "get r k = x"
proof (cases "is_plain_object (JObj j aps)")
  case True
  with assms(1) obtain n m where r: "r = JObj n m"
    and m: "map_of m = default_map w key ++ map_of (own_props (JObj j aps))"
    by (auto simp: merged_value_def)
  from m assms(2) have "map_of m k = Some x" by (simp add: map_of_first_bindings)
  with r show ?thesis by (simp add: get_JObj)
next
  case False
  with assms show ?thesis by (simp add: merged_value_def get_JObj)
qed

lemma loaded_canonicalBase:
  assumes f: "userConfig_of_file w st phase dir customConfig = Some (st2, JObj i ps)"
    and a: "map_of ps ''amp'' = Some (JObj j aps)" "map_of aps ''canonicalBase'' = Some (JStr s)"
      "s \<noteq> []"
    and r: "snd (loadConfig w st phase dir customConfig) = Inr result"
  shows "get (get result ''amp'') ''canonicalBase'' = JStr (strip_slash s)"
proof -
  let ?amp = "JObj j (put_prop aps ''canonicalBase'' (JStr (strip_slash s)))"
  let ?u = "JObj i (put_prop ps ''amp'' ?amp)"
  from r obtain u' where v: "validate w (JObj i ps) = Inr u'"
    by (cases "validate w (JObj i ps)")
      (auto simp: loadConfig_of_file[OF f] validate_and_merge_cases)
  from validate_Inr[OF v] strip_canonicalBase_string[OF a] have u': "u' = ?u" by simp
  let ?lit = "spread [(''configOrigin'', JStr CONFIG_FILE)] ?u"
  from r v u' obtain st' where
    out: "assignDefaults w (st2\<lparr>fresh := Suc (fresh st2)\<rparr>) (JObj (fresh st2) ?lit) = (st', Inr result)"
    by (simp add: loadConfig_of_file[OF f] validate_and_merge_cases) (metis prod.collapse)
  have "map_of ?lit ''amp'' = Some ?amp"
    by (simp add: map_of_spread map_of_first_bindings map_of_put_prop)
  from assignDefaults_get(2)[OF out this]
  have "merged_value w ''amp'' ?amp (get result ''amp'')" .
  then show ?thesis
    by (rule merged_value_field) (simp add: map_of_put_prop)
qed

section \<open>Lemmas: the normalizer\<close>

lemma normalizeConfig_function:
  "normalizeConfig w st phase (JFun f) =
     (st\<lparr>fresh := Suc (fresh st),
         trace := trace st @
           [Call f [JStr phase, JObj (fresh st) [(''defaultConfig'', defaultConfig w)]]]\<rparr>,
      case call_fn w f [JStr phase, JObj (fresh st) [(''defaultConfig'', defaultConfig w)]] of
        Inl e \<Rightarrow> Inl e
      | Inr v \<Rightarrow>
          if v = JUndefined \<or> v = JNull then Inl TypeError
          else if is_function (get v ''then'') then Inl (Error promise_message)
          else Inr v)"
  by (simp add: normalizeConfig_def new_object_def record_event_def read_member_def Let_def
      split: sum.splits)

lemma normalizeConfig_value:
  "\<not> is_function config \<Longrightarrow> normalizeConfig w st phase config = (st, Inr config)"
  by (cases config) (simp_all add: normalizeConfig_def)

section \<open>Lemmas: the flag and the console\<close>

lemma quiet_refl [simp]: "quiet_or_first st st"
  by (simp add: quiet_or_first_def)

lemma quiet_trans:
  "quiet_or_first a b \<Longrightarrow> quiet_or_first b c \<Longrightarrow> quiet_or_first a c"
  by (auto simp: quiet_or_first_def)

lemma quiet_fresh [simp]: "quiet_or_first st (st'\<lparr>fresh := n\<rparr>) = quiet_or_first st st'"
  by (simp add: quiet_or_first_def)

lemma quiet_fresh_left [simp]: "quiet_or_first (st\<lparr>fresh := n\<rparr>) st' = quiet_or_first st st'"
  by (simp add: quiet_or_first_def)

lemma quiet_event [simp]: "quiet_or_first st (record_event e st') = quiet_or_first st st'"
  by (simp add: quiet_or_first_def record_event_def)

lemma quiet_event_left [simp]: "quiet_or_first (record_event e st) st' = quiet_or_first st st'"
  by (simp add: quiet_or_first_def record_event_def)

lemma quiet_experimentalWarning: "quiet_or_first st (experimentalWarning st)"
  by (simp add: quiet_or_first_def experimentalWarning_def execOnce_def)

lemma quiet_warn_experimental: "quiet_or_first st (warn_experimental w u key st)"
  by (simp add: warn_experimental_def quiet_experimentalWarning)

lemma quiet_assign_keys: "quiet_or_first st (fst (assign_keys w st u keys))"
proof (induction keys arbitrary: st u)
  case Nil
  show ?case by simp
next
  case (Cons key keys)
  let ?st1 = "warn_experimental w u key st"
  have 1: "quiet_or_first st ?st1" by (rule quiet_warn_experimental)
  show ?case
  proof (cases "key = ''distDir'' \<and> strict_eq (get u key) (JStr ''public'')")
    case True
    then have "assign_keys w st u (key # keys) = (?st1, Inl (Error distDir_message))"
      by (auto simp: assign_keys_step)
    with 1 show ?thesis by simp
  next
    case stop: False
    show ?thesis
    proof (cases "is_plain_object (get u key)")
      case True
      let ?u' = "put u key (JObj (fresh st) (merge_default w key (get u key)))"
      from Cons.IH[of "?st1\<lparr>fresh := Suc (fresh st)\<rparr>" ?u']
      have "quiet_or_first ?st1 (fst (assign_keys w (?st1\<lparr>fresh := Suc (fresh st)\<rparr>) ?u' keys))"
        by simp
      with 1 have "quiet_or_first st (fst (assign_keys w (?st1\<lparr>fresh := Suc (fresh st)\<rparr>) ?u' keys))"
        by (rule quiet_trans)
      moreover from stop True have "assign_keys w st u (key # keys)
          = assign_keys w (?st1\<lparr>fresh := Suc (fresh st)\<rparr>) ?u' keys"
        by (auto simp: assign_keys_step)
      ultimately show ?thesis by simp
    next
      case False
      from 1 Cons.IH[of ?st1 u]
      have "quiet_or_first st (fst (assign_keys w ?st1 u keys))" by (rule quiet_trans)
      moreover from stop False have "assign_keys w st u (key # keys) = assign_keys w ?st1 u keys"
        by (auto simp: assign_keys_step)
      ultimately show ?thesis by simp
    qed
  qed
qed

lemma quiet_assignDefaults: "quiet_or_first st (fst (assignDefaults w st u))"
  using quiet_assign_keys[of st w u "own_keys u"]
  by (auto simp: assignDefaults_def new_object_def split: prod.splits sum.splits)

lemma quiet_trace [simp]: "quiet_or_first st (st'\<lparr>trace := t\<rparr>) = quiet_or_first st st'"
  by (simp add: quiet_or_first_def)

lemma quiet_normalizeConfig: "quiet_or_first st (fst (normalizeConfig w st phase config))"
proof (cases "is_function config")
  case True
  then obtain f where "config = JFun f" by (cases config) auto
  then show ?thesis by (simp add: normalizeConfig_function)
next
  case False
  then show ?thesis by (simp add: normalizeConfig_value)
qed

lemma quiet_load_module: "quiet_or_first st (fst (load_module w st phase path))"
  using quiet_normalizeConfig[of "record_event (Require path) st" w phase]
  by (auto simp: load_module_def Let_def split: sum.splits)

lemma quiet_validate_and_merge: "quiet_or_first st (fst (validate_and_merge w st u))"
  using quiet_assignDefaults[of "st\<lparr>fresh := Suc (fresh st)\<rparr>" w]
  by (auto simp: validate_and_merge_cases split: sum.splits)

lemma quiet_loadConfig_found: "quiet_or_first st (fst (loadConfig_found w st phase path))"
proof (cases "load_module w st phase path")
  case (Pair st1 r)
  with quiet_load_module[of st w phase path] have 1: "quiet_or_first st st1" by simp
  show ?thesis
  proof (cases r)
    case (Inl e)
    with Pair 1 show ?thesis by (simp add: loadConfig_found_def)
  next
    case (Inr u)
    from 1 quiet_validate_and_merge[of st1 w u]
    have "quiet_or_first st (fst (validate_and_merge w st1 u))" by (rule quiet_trans)
    with Pair Inr show ?thesis by (simp add: loadConfig_found_def)
  qed
qed

lemma quiet_loadConfig_not_found: "quiet_or_first st (fst (loadConfig_not_found w st dir))"
  by (simp add: loadConfig_not_found_def Let_def split: option.splits)

lemma quiet_loadConfig: "quiet_or_first st (fst (loadConfig w st phase dir customConfig))"
proof (cases "truthy customConfig")
  case True
  with quiet_assignDefaults[of "st\<lparr>fresh := Suc (fresh st)\<rparr>" w] show ?thesis
    by (simp add: loadConfig_inline_eq)
next
  case False
  let ?st1 = "record_event (FindUp [configBaseName @ ''.js'', configBaseName @ ''.ts''] dir) st"
  from quiet_loadConfig_found[of ?st1 w phase] quiet_loadConfig_not_found[of ?st1 w dir] False
  show ?thesis
    by (simp add: loadConfig_def Let_def split: option.splits)
qed

lemma quiet_loadConfig_calls: "quiet_or_first st (loadConfig_calls st calls)"
proof (induction calls arbitrary: st)
  case Nil
  show ?case by simp
next
  case (Cons call calls)
  obtain w phase dir customConfig where call: "call = (w, phase, dir, customConfig)"
    by (cases call) auto
  from quiet_loadConfig[of st w phase dir customConfig]
    Cons.IH[of "fst (loadConfig w st phase dir customConfig)"]
  have "quiet_or_first st (loadConfig_calls (fst (loadConfig w st phase dir customConfig)) calls)"
    by (rule quiet_trans)
  with call show ?case by simp
qed

section \<open>The merge of a user configuration with the defaults\<close>

lemma merge_result:
  assumes "assignDefaults w st (JObj i ps) = (st', Inr result)"
  shows "set (own_keys (defaultConfig w)) \<subseteq> set (own_keys result)
   \<and> (\<forall>k v. map_of ps k = Some v \<and> is_plain_object v \<longrightarrow>
         (\<exists>j merged. get result k = JObj j merged \<and>
            map_of merged =
              (if truthy (get (defaultConfig w) k)
               then map_of (own_props (get (defaultConfig w) k)) else Map.empty)
              ++ map_of (own_props v)))
   \<and> (\<forall>k j ups j' dps. map_of ps k = Some (JObj j ups) \<and> is_plain_object (JObj j ups) \<and>
         get (defaultConfig w) k = JObj j' dps \<longrightarrow>
         (\<exists>n merged. get result k = JObj n merged \<and> map_of merged = map_of dps ++ map_of ups))
   \<and> (\<forall>k v. map_of ps k = Some v \<and> \<not> is_plain_object v \<longrightarrow> get result k = v)
   \<and> (\<forall>k. map_of ps k = None \<longrightarrow> get result k = get (defaultConfig w) k)"
proof -
  from assms obtain st1 ps' where
    "assign_keys w st (JObj i ps) (own_keys (JObj i ps)) = (st1, Inr (JObj i ps'))" and
    r: "result = JObj (fresh st1) (spread (spread [] (defaultConfig w)) (JObj i ps'))"
    by (rule assignDefaults_Inr)
  have keys: "set (own_keys (defaultConfig w)) \<subseteq> set (own_keys result)"
    unfolding r own_keys_result by simp
  have plain: "\<exists>j merged. get result k = JObj j merged \<and>
            map_of merged =
              (if truthy (get (defaultConfig w) k)
               then map_of (own_props (get (defaultConfig w) k)) else Map.empty)
              ++ map_of (own_props v)"
    if "map_of ps k = Some v" "is_plain_object v" for k v
    using assignDefaults_get(2)[OF assms that(1)] that(2)
    by (simp add: merged_value_def default_map_def)
  have both: "\<exists>n merged. get result k = JObj n merged \<and> map_of merged = map_of dps ++ map_of ups"
    if "map_of ps k = Some (JObj j ups)" "is_plain_object (JObj j ups)"
       "get (defaultConfig w) k = JObj j' dps" for k j ups j' dps
    using plain[OF that(1,2)] that(3) by (simp add: map_of_first_bindings)
  have other: "get result k = v" if "map_of ps k = Some v" "\<not> is_plain_object v" for k v
    using assignDefaults_get(2)[OF assms that(1)] that(2) by (simp add: merged_value_def)
  have absent: "get result k = get (defaultConfig w) k" if "map_of ps k = None" for k
    using assignDefaults_get(1)[OF assms that] .
  from keys plain both other absent show ?thesis by blast
qed

text \<open>
  C1, as the code has it.  \<^verbatim>\<open>assignDefaults\<close> returns a configuration for every user
  configuration whose \<^verbatim>\<open>distDir\<close> is not \<^verbatim>\<open>'public'\<close>, and in what it returns:
  \<^item> every top-level key of the default configuration is present;
  \<^item> under a key whose user value is a plain object (truthy, with \<^verbatim>\<open>constructor\<close>
    \<^verbatim>\<open>Object\<close>), there is a new object: the own enumerable properties of the default value
    under that key (none when that default is absent or falsy) overridden key by key by
    the user's; the test looks at the user value only;
  \<^item> in particular, when the default value is an object too, the new object is the union
    of the two in which user keys win and default keys the user does not mention survive;
  \<^item> under a key whose user value is not a plain object, there is the user value;
  \<^item> under a key the user configuration does not have, there is the default value.
\<close>

theorem assignDefaults_merge:
  "(get (JObj i ps) ''distDir'' \<noteq> JStr ''public'' \<longrightarrow>
      (\<exists>st' result. assignDefaults w st (JObj i ps) = (st', Inr result)))
   \<and> (assignDefaults w st (JObj i ps) = (st', Inr result) \<longrightarrow>
      set (own_keys (defaultConfig w)) \<subseteq> set (own_keys result)
      \<and> (\<forall>k v. map_of ps k = Some v \<and> is_plain_object v \<longrightarrow>
            (\<exists>j merged. get result k = JObj j merged \<and>
               map_of merged =
                 (if truthy (get (defaultConfig w) k)
                  then map_of (own_props (get (defaultConfig w) k)) else Map.empty)
                 ++ map_of (own_props v)))
      \<and> (\<forall>k j ups j' dps. map_of ps k = Some (JObj j ups) \<and> is_plain_object (JObj j ups) \<and>
            get (defaultConfig w) k = JObj j' dps \<longrightarrow>
            (\<exists>n merged. get result k = JObj n merged \<and> map_of merged = map_of dps ++ map_of ups))
      \<and> (\<forall>k v. map_of ps k = Some v \<and> \<not> is_plain_object v \<longrightarrow> get result k = v)
      \<and> (\<forall>k. map_of ps k = None \<longrightarrow> get result k = get (defaultConfig w) k))"
proof (rule conjI)
  show "get (JObj i ps) ''distDir'' \<noteq> JStr ''public'' \<longrightarrow>
      (\<exists>st' result. assignDefaults w st (JObj i ps) = (st', Inr result))"
  proof
    assume "get (JObj i ps) ''distDir'' \<noteq> JStr ''public''"
    then have "\<not> isl (snd (assignDefaults w st (JObj i ps)))"
      by (simp add: assignDefaults_raises)
    then show "\<exists>st' result. assignDefaults w st (JObj i ps) = (st', Inr result)"
      by (metis prod.collapse sum.collapse(2))
  qed
next
  show "assignDefaults w st (JObj i ps) = (st', Inr result) \<longrightarrow>
      set (own_keys (defaultConfig w)) \<subseteq> set (own_keys result)
      \<and> (\<forall>k v. map_of ps k = Some v \<and> is_plain_object v \<longrightarrow>
            (\<exists>j merged. get result k = JObj j merged \<and>
               map_of merged =
                 (if truthy (get (defaultConfig w) k)
                  then map_of (own_props (get (defaultConfig w) k)) else Map.empty)
                 ++ map_of (own_props v)))
      \<and> (\<forall>k j ups j' dps. map_of ps k = Some (JObj j ups) \<and> is_plain_object (JObj j ups) \<and>
            get (defaultConfig w) k = JObj j' dps \<longrightarrow>
            (\<exists>n merged. get result k = JObj n merged \<and> map_of merged = map_of dps ++ map_of ups))
      \<and> (\<forall>k v. map_of ps k = Some v \<and> \<not> is_plain_object v \<longrightarrow> get result k = v)
      \<and> (\<forall>k. map_of ps k = None \<longrightarrow> get result k = get (defaultConfig w) k)"
    by (rule impI) (rule merge_result)
qed

text \<open>
  The theorem at \<^verbatim>\<open>{ onDemandEntries: { maxInactiveAge: 5 }, distDir: 'build' }\<close>: the
  sibling \<^verbatim>\<open>pagesBufferLength\<close> of the default survives, \<^verbatim>\<open>distDir\<close> is the user's,
  \<^verbatim>\<open>compress\<close> is the default's.
\<close>

theorem assignDefaults_merge_witness:
  "get (JObj 50 [(''onDemandEntries'', JObj 51 [(''maxInactiveAge'', JNum 5)]),
                 (''distDir'', JStr ''build'')]) ''distDir'' \<noteq> JStr ''public''
   \<and> \<not> isl (snd (assignDefaults (disk [] []) init_state
        (JObj 50 [(''onDemandEntries'', JObj 51 [(''maxInactiveAge'', JNum 5)]),
                  (''distDir'', JStr ''build'')])))
   \<and> (\<exists>n merged.
         get (projr (snd (assignDefaults (disk [] []) init_state
           (JObj 50 [(''onDemandEntries'', JObj 51 [(''maxInactiveAge'', JNum 5)]),
                     (''distDir'', JStr ''build'')])))) ''onDemandEntries'' = JObj n merged
         \<and> map_of merged =
             map_of [(''maxInactiveAge'', JNum (60 * 1000)), (''pagesBufferLength'', JNum 2)]
             ++ map_of [(''maxInactiveAge'', JNum 5)])
   \<and> get (projr (snd (assignDefaults (disk [] []) init_state
           (JObj 50 [(''onDemandEntries'', JObj 51 [(''maxInactiveAge'', JNum 5)]),
                     (''distDir'', JStr ''build'')])))) ''distDir'' = JStr ''build''
   \<and> get (projr (snd (assignDefaults (disk [] []) init_state
           (JObj 50 [(''onDemandEntries'', JObj 51 [(''maxInactiveAge'', JNum 5)]),
                     (''distDir'', JStr ''build'')])))) ''compress'' = JBool True"
proof -
  define ps where "ps = [(''onDemandEntries'', JObj 51 [(''maxInactiveAge'', JNum 5)]),
                  (''distDir'', JStr ''build'')]"
  define out where "out = assignDefaults (disk [] []) init_state (JObj 50 ps)"
  have nd: "get (JObj 50 ps) ''distDir'' \<noteq> JStr ''public''"
    unfolding ps_def by code_simp
  from assignDefaults_merge[of 50 ps "disk [] []" init_state] nd
  obtain st' result where run: "assignDefaults (disk [] []) init_state (JObj 50 ps) = (st', Inr result)"
    by blast
  then have res: "snd out = Inr result" by (simp add: out_def)
  from assignDefaults_merge[of 50 ps "disk [] []" init_state st' result] run
  have m: "(\<forall>k j ups j' dps. map_of ps k = Some (JObj j ups) \<and> is_plain_object (JObj j ups) \<and>
            get (defaultConfig (disk [] [])) k = JObj j' dps \<longrightarrow>
            (\<exists>n merged. get result k = JObj n merged \<and> map_of merged = map_of dps ++ map_of ups))
      \<and> (\<forall>k v. map_of ps k = Some v \<and> \<not> is_plain_object v \<longrightarrow> get result k = v)
      \<and> (\<forall>k. map_of ps k = None \<longrightarrow> get result k = get (defaultConfig (disk [] [])) k)"
    by blast
  have u1: "map_of ps ''onDemandEntries'' = Some (JObj 51 [(''maxInactiveAge'', JNum 5)])
            \<and> is_plain_object (JObj 51 [(''maxInactiveAge'', JNum 5)])
            \<and> get (defaultConfig (disk [] [])) ''onDemandEntries''
                = JObj 15 [(''maxInactiveAge'', JNum (60 * 1000)), (''pagesBufferLength'', JNum 2)]"
    unfolding ps_def by code_simp
  have u2: "map_of ps ''distDir'' = Some (JStr ''build'') \<and> \<not> is_plain_object (JStr ''build'')"
    unfolding ps_def by code_simp
  have u3: "map_of ps ''compress'' = None"
    unfolding ps_def by code_simp
  have d3: "get (defaultConfig (disk [] [])) ''compress'' = JBool True"
    by code_simp
  from m u1 have c1: "\<exists>n merged. get result ''onDemandEntries'' = JObj n merged
         \<and> map_of merged =
             map_of [(''maxInactiveAge'', JNum (60 * 1000)), (''pagesBufferLength'', JNum 2)]
             ++ map_of [(''maxInactiveAge'', JNum 5)]"
    by blast
  from m u2 have c2: "get result ''distDir'' = JStr ''build''" by blast
  from m u3 d3 have c3: "get result ''compress'' = JBool True" by metis
  from nd res c1 c2 c3 show ?thesis unfolding out_def ps_def by simp
qed

text \<open>
  C1 as the spec words it fails where the user value is a plain object and the default
  value is not, but has enumerable properties of its own:
  \<^verbatim>\<open>loadConfig('build', '/app', { pageExtensions: { a: 1 } })\<close> does not return the user
  value under \<^verbatim>\<open>pageExtensions\<close>; the indices of the default array are spread into it.
\<close>

theorem merge_over_array_default:
  "is_plain_object (JObj 51 [(''a'', JNum 1)])
   \<and> get (defaultConfig (disk [] [])) ''pageExtensions''
       = JArr 13 [JStr ''tsx'', JStr ''ts'', JStr ''jsx'', JStr ''js'']
   \<and> \<not> isl (snd (loadConfig (disk [] []) init_state ''build'' ''/app''
          (JObj 50 [(''pageExtensions'', JObj 51 [(''a'', JNum 1)])])))
   \<and> get (projr (snd (loadConfig (disk [] []) init_state ''build'' ''/app''
          (JObj 50 [(''pageExtensions'', JObj 51 [(''a'', JNum 1)])])))) ''pageExtensions''
       = JObj 101 [(''0'', JStr ''tsx''), (''1'', JStr ''ts''), (''2'', JStr ''jsx''),
                   (''3'', JStr ''js''), (''a'', JNum 1)]"
  by code_simp

section \<open>The target of a configuration file\<close>

text \<open>
  C2, as the code has it.  For a call without an inline configuration that loads the
  configuration of a file: when its \<^verbatim>\<open>target\<close> is truthy and
  is not one of \<^verbatim>\<open>'server'\<close>, \<^verbatim>\<open>'serverless'\<close>, \<^verbatim>\<open>'experimental-serverless-trace'\<close>,
  \<^verbatim>\<open>loadConfig\<close> throws, before any other check, the error whose message quotes the value
  and lists the three; when its \<^verbatim>\<open>target\<close> is falsy or one of the three, that error is never
  thrown.  Loading a file that holds \<^verbatim>\<open>{ target: 'serverless' }\<close> succeeds.
\<close>

theorem invalid_target:
  \<open>(userConfig_of_file w st phase dir customConfig = Some (st2, userConfig) \<longrightarrow>
      (truthy (get userConfig ''target'') \<and> \<not> array_includes targets (get userConfig ''target'') \<longrightarrow>
         loadConfig w st phase dir customConfig =
           (st2, Inl (Error (''Specified target is invalid. Provided: "''
                @ to_string (fn_source w) (get userConfig ''target'')
                @ ''" should be one of server, serverless, experimental-serverless-trace''))))
      \<and> (\<not> truthy (get userConfig ''target'') \<or> array_includes targets (get userConfig ''target'') \<longrightarrow>
         (\<forall>t. snd (loadConfig w st phase dir customConfig) \<noteq> Inl (Error (target_message w t)))))
   \<and> array_includes targets (JStr ''serverless'')
   \<and> \<not> isl (snd (loadConfig
          (disk [(''/app/next.config.js'', JObj 50 [(''target'', JStr ''serverless'')])] [])
          init_state ''build'' ''/app'' JUndefined))
   \<and> get (projr (snd (loadConfig
          (disk [(''/app/next.config.js'', JObj 50 [(''target'', JStr ''serverless'')])] [])
          init_state ''build'' ''/app'' JUndefined))) ''target'' = JStr ''serverless''\<close>
proof -
  have a: \<open>loadConfig w st phase dir customConfig =
           (st2, Inl (Error (''Specified target is invalid. Provided: "''
                @ to_string (fn_source w) (get userConfig ''target'')
                @ ''" should be one of server, serverless, experimental-serverless-trace'')))\<close>
    if f: "userConfig_of_file w st phase dir customConfig = Some (st2, userConfig)"
      and t: "truthy (get userConfig ''target'')" "\<not> array_includes targets (get userConfig ''target'')"
  proof -
    from t(1) have "userConfig \<noteq> JUndefined" "userConfig \<noteq> JNull"
      by (auto simp: get_def)
    with t have "check_target w userConfig = Inl (Error (target_message w (get userConfig ''target'')))"
      by (simp add: check_target_cases)
    then have "validate w userConfig = Inl (Error (target_message w (get userConfig ''target'')))"
      by (simp add: validate_def)
    then show ?thesis
      by (simp add: loadConfig_of_file[OF f] validate_and_merge_cases target_message_def
          targets_joined)
  qed
  have b: "snd (loadConfig w st phase dir customConfig) \<noteq> Inl (Error (target_message w t))"
    if f: "userConfig_of_file w st phase dir customConfig = Some (st2, userConfig)"
      and t: "\<not> truthy (get userConfig ''target'') \<or> array_includes targets (get userConfig ''target'')"
    for t
  proof
    assume "snd (loadConfig w st phase dir customConfig) = Inl (Error (target_message w t))"
    then have "validate w userConfig = Inl (Error (target_message w t))"
      using validate_and_merge_error[of w st2 userConfig "Error (target_message w t)"]
      by (auto simp: loadConfig_of_file[OF f] messages_distinct messages_distinct[symmetric])
    from validate_target_error[OF this] t show False by blast
  qed
  have c: "array_includes targets (JStr ''serverless'')" by (simp add: targets_def)
  have d: "\<not> isl (snd (loadConfig
          (disk [(''/app/next.config.js'', JObj 50 [(''target'', JStr ''serverless'')])] [])
          init_state ''build'' ''/app'' JUndefined))
   \<and> get (projr (snd (loadConfig
          (disk [(''/app/next.config.js'', JObj 50 [(''target'', JStr ''serverless'')])] [])
          init_state ''build'' ''/app'' JUndefined))) ''target'' = JStr ''serverless''"
    by code_simp
  from a b c d show ?thesis by blast
qed

text \<open>
  The theorem at a file that holds \<^verbatim>\<open>{ target: 'bogus' }\<close>.
\<close>

theorem invalid_target_witness:
  \<open>userConfig_of_file (disk [(''/app/next.config.js'', JObj 50 [(''target'', JStr ''bogus'')])] [])
       init_state ''build'' ''/app'' JUndefined
     = Some (\<lparr>warned = False, console = [],
               trace = [FindUp [''next.config.js'', ''next.config.ts''] ''/app'',
                        Require ''/app/next.config.js''],
               fresh = 100\<rparr>,
             JObj 50 [(''target'', JStr ''bogus'')])
   \<and> truthy (JStr ''bogus'') \<and> \<not> array_includes targets (JStr ''bogus'')
   \<and> snd (loadConfig (disk [(''/app/next.config.js'', JObj 50 [(''target'', JStr ''bogus'')])] [])
          init_state ''build'' ''/app'' JUndefined)
     = Inl (Error ''Specified target is invalid. Provided: "bogus" should be one of server, serverless, experimental-serverless-trace'')\<close>
proof -
  define u where "u = JObj 50 [(''target'', JStr ''bogus'')]"
  define W where "W = disk [(''/app/next.config.js'', u)] []"
  define S2 where "S2 = \<lparr>warned = False, console = [],
               trace = [FindUp [''next.config.js'', ''next.config.ts''] ''/app'',
                        Require ''/app/next.config.js''],
               fresh = 100\<rparr>"
  have f: "userConfig_of_file W init_state ''build'' ''/app'' JUndefined = Some (S2, u)"
    unfolding W_def S2_def u_def by code_simp
  have g: "get u ''target'' = JStr ''bogus''" unfolding u_def by code_simp
  have t: "truthy (JStr ''bogus'') \<and> \<not> array_includes targets (JStr ''bogus'')" by code_simp
  from invalid_target[of W init_state "''build''" "''/app''" JUndefined S2 u] f g t
  have \<open>loadConfig W init_state ''build'' ''/app'' JUndefined
     = (S2, Inl (Error (''Specified target is invalid. Provided: "''
                @ to_string (fn_source W) (JStr ''bogus'')
                @ ''" should be one of server, serverless, experimental-serverless-trace'')))\<close>
    by simp
  then have \<open>snd (loadConfig W init_state ''build'' ''/app'' JUndefined)
     = Inl (Error ''Specified target is invalid. Provided: "bogus" should be one of server, serverless, experimental-serverless-trace'')\<close>
    by simp
  with f t show ?thesis unfolding W_def S2_def u_def by blast
qed

text \<open>
  C2 as the spec words it fails in two places.  A configuration given inline is merged
  without any check (line 199 returns first): \<^verbatim>\<open>loadConfig('build', '/app', { target: 'bogus' })\<close>
  returns a configuration.  And for a file the check is guarded by \<^verbatim>\<open>userConfig.target &&\<close>:
  a file that holds \<^verbatim>\<open>{ target: '' }\<close> loads, although the empty string is none of the
  three targets.
\<close>

theorem target_unchecked:
  "\<not> array_includes targets (JStr ''bogus'')
   \<and> \<not> isl (snd (loadConfig (disk [] []) init_state ''build'' ''/app''
          (JObj 50 [(''target'', JStr ''bogus'')])))
   \<and> get (projr (snd (loadConfig (disk [] []) init_state ''build'' ''/app''
          (JObj 50 [(''target'', JStr ''bogus'')])))) ''target'' = JStr ''bogus''
   \<and> \<not> array_includes targets (JStr [])
   \<and> userConfig_of_file (disk [(''/app/next.config.js'', JObj 50 [(''target'', JStr [])])] [])
       init_state ''build'' ''/app'' JUndefined
     = Some (\<lparr>warned = False, console = [],
               trace = [FindUp [''next.config.js'', ''next.config.ts''] ''/app'',
                        Require ''/app/next.config.js''],
               fresh = 100\<rparr>,
             JObj 50 [(''target'', JStr [])])
   \<and> \<not> isl (snd (loadConfig (disk [(''/app/next.config.js'', JObj 50 [(''target'', JStr [])])] [])
          init_state ''build'' ''/app'' JUndefined))
   \<and> get (projr (snd (loadConfig (disk [(''/app/next.config.js'', JObj 50 [(''target'', JStr [])])] [])
          init_state ''build'' ''/app'' JUndefined))) ''target'' = JStr []"
  by code_simp

section \<open>Runtime configuration and the target\<close>

text \<open>
  C3, as the code has it.  For the configuration of a file whose \<^verbatim>\<open>target\<close> is truthy and
  is not \<^verbatim>\<open>'server'\<close>, and in which \<^verbatim>\<open>publicRuntimeConfig\<close> or \<^verbatim>\<open>serverRuntimeConfig\<close> is
  an object with at least one property, \<^verbatim>\<open>loadConfig\<close> throws and returns no
  configuration: the error of the target check when the target is not one of the three,
  else the error that names the incompatibility (unless \<^verbatim>\<open>amp.canonicalBase\<close> is a truthy
  value that is not a string, on which the step before it fails).  When \<^verbatim>\<open>target\<close> is
  \<^verbatim>\<open>'server'\<close> or falsy, the incompatibility error is never thrown, and a file that holds
  \<^verbatim>\<open>{ target: 'server', publicRuntimeConfig: { a: 1 } }\<close>, or the same without the target,
  loads.
\<close>

theorem runtimeConfig_incompatible:
  "(userConfig_of_file w st phase dir customConfig = Some (st2, userConfig) \<longrightarrow>
      (truthy (get userConfig ''target'') \<and> get userConfig ''target'' \<noteq> JStr ''server'' \<and>
       ((get userConfig ''publicRuntimeConfig'' = JObj j ps \<and> ps \<noteq> []) \<or>
        (get userConfig ''serverRuntimeConfig'' = JObj j ps \<and> ps \<noteq> [])) \<longrightarrow>
         loadConfig w st phase dir customConfig =
           (st2, Inl (if \<not> array_includes targets (get userConfig ''target'')
                      then Error (target_message w (get userConfig ''target''))
                      else if isl (strip_canonicalBase userConfig) then TypeError
                      else Error runtimeConfig_message)))
      \<and> (\<not> truthy (get userConfig ''target'') \<or> get userConfig ''target'' = JStr ''server'' \<longrightarrow>
           snd (loadConfig w st phase dir customConfig) \<noteq> Inl (Error runtimeConfig_message)))
   \<and> \<not> isl (snd (loadConfig
          (disk [(''/app/next.config.js'',
                  JObj 50 [(''target'', JStr ''server''),
                           (''publicRuntimeConfig'', JObj 51 [(''a'', JNum 1)])])] [])
          init_state ''build'' ''/app'' JUndefined))
   \<and> get (get (projr (snd (loadConfig
          (disk [(''/app/next.config.js'',
                  JObj 50 [(''target'', JStr ''server''),
                           (''publicRuntimeConfig'', JObj 51 [(''a'', JNum 1)])])] [])
          init_state ''build'' ''/app'' JUndefined))) ''publicRuntimeConfig'') ''a'' = JNum 1
   \<and> \<not> isl (snd (loadConfig
          (disk [(''/app/next.config.js'',
                  JObj 50 [(''publicRuntimeConfig'', JObj 51 [(''a'', JNum 1)])])] [])
          init_state ''build'' ''/app'' JUndefined))"
proof -
  have a: "loadConfig w st phase dir customConfig =
           (st2, Inl (if \<not> array_includes targets (get userConfig ''target'')
                      then Error (target_message w (get userConfig ''target''))
                      else if isl (strip_canonicalBase userConfig) then TypeError
                      else Error runtimeConfig_message))"
    if f: "userConfig_of_file w st phase dir customConfig = Some (st2, userConfig)"
      and t: "truthy (get userConfig ''target'')" "get userConfig ''target'' \<noteq> JStr ''server''"
      and r: "(get userConfig ''publicRuntimeConfig'' = JObj j ps \<and> ps \<noteq> []) \<or>
              (get userConfig ''serverRuntimeConfig'' = JObj j ps \<and> ps \<noteq> [])"
    by (simp only: loadConfig_of_file[OF f] validate_and_merge_cases
        validate_runtime_raises[OF t r] sum.case)
  have b: "snd (loadConfig w st phase dir customConfig) \<noteq> Inl (Error runtimeConfig_message)"
    if f: "userConfig_of_file w st phase dir customConfig = Some (st2, userConfig)"
      and t: "\<not> truthy (get userConfig ''target'') \<or> get userConfig ''target'' = JStr ''server''"
  proof
    assume "snd (loadConfig w st phase dir customConfig) = Inl (Error runtimeConfig_message)"
    then have "validate w userConfig = Inl (Error runtimeConfig_message)"
      using validate_and_merge_error[of w st2 userConfig "Error runtimeConfig_message"]
      by (auto simp: loadConfig_of_file[OF f] messages_distinct)
    from validate_runtime_error[OF this] t show False by blast
  qed
  have c: "\<not> isl (snd (loadConfig
          (disk [(''/app/next.config.js'',
                  JObj 50 [(''target'', JStr ''server''),
                           (''publicRuntimeConfig'', JObj 51 [(''a'', JNum 1)])])] [])
          init_state ''build'' ''/app'' JUndefined))
   \<and> get (get (projr (snd (loadConfig
          (disk [(''/app/next.config.js'',
                  JObj 50 [(''target'', JStr ''server''),
                           (''publicRuntimeConfig'', JObj 51 [(''a'', JNum 1)])])] [])
          init_state ''build'' ''/app'' JUndefined))) ''publicRuntimeConfig'') ''a'' = JNum 1
   \<and> \<not> isl (snd (loadConfig
          (disk [(''/app/next.config.js'',
                  JObj 50 [(''publicRuntimeConfig'', JObj 51 [(''a'', JNum 1)])])] [])
          init_state ''build'' ''/app'' JUndefined))"
    by code_simp
  from a b c show ?thesis by blast
qed

text \<open>
  The theorem at a file that holds
  \<^verbatim>\<open>{ target: 'serverless', publicRuntimeConfig: { a: 1 } }\<close>.
\<close>

theorem runtimeConfig_incompatible_witness:
  "userConfig_of_file
       (disk [(''/app/next.config.js'',
               JObj 50 [(''target'', JStr ''serverless''),
                        (''publicRuntimeConfig'', JObj 51 [(''a'', JNum 1)])])] [])
       init_state ''build'' ''/app'' JUndefined
     = Some (\<lparr>warned = False, console = [],
               trace = [FindUp [''next.config.js'', ''next.config.ts''] ''/app'',
                        Require ''/app/next.config.js''],
               fresh = 100\<rparr>,
             JObj 50 [(''target'', JStr ''serverless''),
                      (''publicRuntimeConfig'', JObj 51 [(''a'', JNum 1)])])
   \<and> snd (loadConfig
          (disk [(''/app/next.config.js'',
               JObj 50 [(''target'', JStr ''serverless''),
                        (''publicRuntimeConfig'', JObj 51 [(''a'', JNum 1)])])] [])
          init_state ''build'' ''/app'' JUndefined)
     = Inl (Error runtimeConfig_message)"
proof -
  define u where "u = JObj 50 [(''target'', JStr ''serverless''),
                        (''publicRuntimeConfig'', JObj 51 [(''a'', JNum 1)])]"
  define W where "W = disk [(''/app/next.config.js'', u)] []"
  define S2 where "S2 = \<lparr>warned = False, console = [],
               trace = [FindUp [''next.config.js'', ''next.config.ts''] ''/app'',
                        Require ''/app/next.config.js''],
               fresh = 100\<rparr>"
  have f: "userConfig_of_file W init_state ''build'' ''/app'' JUndefined = Some (S2, u)"
    unfolding W_def S2_def u_def by code_simp
  have h: "truthy (get u ''target'') \<and> get u ''target'' \<noteq> JStr ''server'' \<and>
       get u ''publicRuntimeConfig'' = JObj 51 [(''a'', JNum 1)] \<and> [(''a'', JNum 1)] \<noteq> []
       \<and> array_includes targets (get u ''target'') \<and> \<not> isl (strip_canonicalBase u)"
    unfolding u_def by code_simp
  from runtimeConfig_incompatible[of W init_state "''build''" "''/app''" JUndefined S2 u
      51 "[(''a'', JNum 1)]"] f h
  have "loadConfig W init_state ''build'' ''/app'' JUndefined
          = (S2, Inl (Error runtimeConfig_message))"
    by simp
  then have "snd (loadConfig W init_state ''build'' ''/app'' JUndefined)
          = Inl (Error runtimeConfig_message)" by simp
  with f show ?thesis unfolding W_def S2_def u_def by blast
qed

text \<open>
  C3 as the spec words it fails in two places.  A configuration given inline is merged
  without any check (line 199 returns first):
  \<^verbatim>\<open>loadConfig('build', '/app', { target: 'serverless', publicRuntimeConfig: { a: 1 } })\<close>
  returns a configuration.  And for a file the check is guarded by \<^verbatim>\<open>userConfig.target &&\<close>:
  a file that holds \<^verbatim>\<open>{ target: '', publicRuntimeConfig: { a: 1 } }\<close> loads, although its
  target is present and is not \<^verbatim>\<open>'server'\<close>.
\<close>

theorem runtimeConfig_unchecked:
  "\<not> isl (snd (loadConfig (disk [] []) init_state ''build'' ''/app''
          (JObj 50 [(''target'', JStr ''serverless''),
                    (''publicRuntimeConfig'', JObj 51 [(''a'', JNum 1)])])))
   \<and> get (projr (snd (loadConfig (disk [] []) init_state ''build'' ''/app''
          (JObj 50 [(''target'', JStr ''serverless''),
                    (''publicRuntimeConfig'', JObj 51 [(''a'', JNum 1)])])))) ''target''
       = JStr ''serverless''
   \<and> get (get (projr (snd (loadConfig (disk [] []) init_state ''build'' ''/app''
          (JObj 50 [(''target'', JStr ''serverless''),
                    (''publicRuntimeConfig'', JObj 51 [(''a'', JNum 1)])]))))
          ''publicRuntimeConfig'') ''a'' = JNum 1
   \<and> userConfig_of_file
       (disk [(''/app/next.config.js'',
               JObj 50 [(''target'', JStr []),
                        (''publicRuntimeConfig'', JObj 51 [(''a'', JNum 1)])])] [])
       init_state ''build'' ''/app'' JUndefined
     = Some (\<lparr>warned = False, console = [],
               trace = [FindUp [''next.config.js'', ''next.config.ts''] ''/app'',
                        Require ''/app/next.config.js''],
               fresh = 100\<rparr>,
             JObj 50 [(''target'', JStr []),
                      (''publicRuntimeConfig'', JObj 51 [(''a'', JNum 1)])])
   \<and> JStr [] \<noteq> JStr ''server''
   \<and> \<not> isl (snd (loadConfig
          (disk [(''/app/next.config.js'',
               JObj 50 [(''target'', JStr []),
                        (''publicRuntimeConfig'', JObj 51 [(''a'', JNum 1)])])] [])
          init_state ''build'' ''/app'' JUndefined))
   \<and> get (get (projr (snd (loadConfig
          (disk [(''/app/next.config.js'',
               JObj 50 [(''target'', JStr []),
                        (''publicRuntimeConfig'', JObj 51 [(''a'', JNum 1)])])] [])
          init_state ''build'' ''/app'' JUndefined))) ''publicRuntimeConfig'') ''a'' = JNum 1"
  by code_simp

section \<open>A configuration exported as a function\<close>

text \<open>
  C4, as the code has it.  A loaded value that is a function is called once, with the
  phase and a new object whose \<^verbatim>\<open>defaultConfig\<close> is the default configuration, and with
  nothing else.  When the call returns a value other than \<^verbatim>\<open>undefined\<close> and \<^verbatim>\<open>null\<close>, that
  value is the result of the normalizer, unless its \<^verbatim>\<open>then\<close> is a function: then the
  normalizer throws the error about a promise.  A loaded value that is not a function is
  returned as it is, and nothing is called.
\<close>

theorem normalizeConfig_calls_once:
  "trace (fst (normalizeConfig w st phase (JFun f))) =
      trace st @ [Call f [JStr phase, JObj (fresh st) [(''defaultConfig'', defaultConfig w)]]]
   \<and> (call_fn w f [JStr phase, JObj (fresh st) [(''defaultConfig'', defaultConfig w)]] = Inr v
        \<and> v \<noteq> JUndefined \<and> v \<noteq> JNull \<longrightarrow>
          snd (normalizeConfig w st phase (JFun f)) =
            (if is_function (get v ''then'') then Inl (Error promise_message) else Inr v))
   \<and> (\<not> is_function config \<longrightarrow> normalizeConfig w st phase config = (st, Inr config))
   \<and> suffix ''https://err.sh/zeit/next.js/promise-in-next-config'' promise_message"
  by (simp add: normalizeConfig_function normalizeConfig_value promise_message_def suffix_def)

text \<open>
  The theorem at a function that returns \<^verbatim>\<open>{ distDir: 'out' }\<close>, at one that returns an
  object with a \<^verbatim>\<open>then\<close> function, and at a string.
\<close>

theorem normalizeConfig_calls_once_witness:
  "call_fn (disk [] [(7, JObj 60 [(''distDir'', JStr ''out'')])]) 7
       [JStr ''build'', JObj (fresh init_state)
          [(''defaultConfig'', defaultConfig (disk [] [(7, JObj 60 [(''distDir'', JStr ''out'')])]))]]
     = Inr (JObj 60 [(''distDir'', JStr ''out'')])
   \<and> snd (normalizeConfig (disk [] [(7, JObj 60 [(''distDir'', JStr ''out'')])]) init_state
          ''build'' (JFun 7))
     = Inr (JObj 60 [(''distDir'', JStr ''out'')])
   \<and> snd (normalizeConfig (disk [] [(8, JObj 61 [(''then'', JFun 9)])]) init_state
          ''build'' (JFun 8))
     = Inl (Error promise_message)
   \<and> normalizeConfig (disk [] []) init_state ''build'' (JStr ''text'')
     = (init_state, Inr (JStr ''text''))"
proof -
  define v where "v = JObj 60 [(''distDir'', JStr ''out'')]"
  define W where "W = disk [] [(7, v)]"
  define p where "p = JObj 61 [(''then'', JFun 9)]"
  define W' where "W' = disk [] [(8, p)]"
  have c: "call_fn W 7 [JStr ''build'', JObj (fresh init_state) [(''defaultConfig'', defaultConfig W)]]
      = Inr v" unfolding W_def v_def by code_simp
  have n: "v \<noteq> JUndefined \<and> v \<noteq> JNull \<and> \<not> is_function (get v ''then'')"
    unfolding v_def by code_simp
  have c': "call_fn W' 8 [JStr ''build'', JObj (fresh init_state) [(''defaultConfig'', defaultConfig W')]]
      = Inr p" unfolding W'_def p_def by code_simp
  have n': "p \<noteq> JUndefined \<and> p \<noteq> JNull \<and> is_function (get p ''then'')"
    unfolding p_def by code_simp
  have s: "\<not> is_function (JStr ''text'')" by simp
  from normalizeConfig_calls_once[of W init_state "''build''" 7 v] c n
  have r1: "snd (normalizeConfig W init_state ''build'' (JFun 7)) = Inr v" by simp
  from normalizeConfig_calls_once[of W' init_state "''build''" 8 p] c' n'
  have r2: "snd (normalizeConfig W' init_state ''build'' (JFun 8)) = Inl (Error promise_message)"
    by simp
  from normalizeConfig_calls_once[of "disk [] []" init_state "''build''" _ _ "JStr ''text''"] s
  have r3: "normalizeConfig (disk [] []) init_state ''build'' (JStr ''text'')
     = (init_state, Inr (JStr ''text''))" by blast
  from c r1 r2 r3 show ?thesis unfolding W_def W'_def v_def p_def by blast
qed

text \<open>
  C4 as the spec words it fails at a function that returns \<^verbatim>\<open>undefined\<close> (or \<^verbatim>\<open>null\<close>):
  the returned value is not used, reading its \<^verbatim>\<open>then\<close> throws a \<^verbatim>\<open>TypeError\<close>, which is
  what \<^verbatim>\<open>loadConfig\<close> throws for a file whose module is such a function.
\<close>

theorem function_returning_undefined:
  "call_fn (disk [(''/app/next.config.js'', JFun 7)] [(7, JUndefined)]) 7
       [JStr ''build'', JObj 100
          [(''defaultConfig'', defaultConfig (disk [(''/app/next.config.js'', JFun 7)] [(7, JUndefined)]))]]
     = Inr JUndefined
   \<and> normalizeConfig (disk [(''/app/next.config.js'', JFun 7)] [(7, JUndefined)]) init_state
        ''build'' (JFun 7)
     = (\<lparr>warned = False, console = [],
          trace = [Call 7 [JStr ''build'', JObj 100
             [(''defaultConfig'',
               defaultConfig (disk [(''/app/next.config.js'', JFun 7)] [(7, JUndefined)]))]]],
          fresh = 101\<rparr>,
        Inl TypeError)
   \<and> snd (loadConfig (disk [(''/app/next.config.js'', JFun 7)] [(7, JUndefined)]) init_state
        ''build'' ''/app'' JUndefined) = Inl TypeError"
  by code_simp

section \<open>The canonical base of AMP pages\<close>

text \<open>
  C5.  For the configuration of a file whose \<^verbatim>\<open>amp\<close> is an object with a non-empty string
  \<^verbatim>\<open>canonicalBase\<close>: the step of lines 223 to 230 replaces that string by the string
  without its trailing slash, the configuration passed on to the merge holds the stripped
  string, and so does every configuration \<^verbatim>\<open>loadConfig\<close> returns.  Stripping removes the
  last character where it is a slash (one slash: \<^verbatim>\<open>'a//'\<close> becomes \<^verbatim>\<open>'a/'\<close>) and leaves
  any other string as it is; \<^verbatim>\<open>'https://x.com/'\<close> becomes \<^verbatim>\<open>'https://x.com'\<close>.
\<close>

theorem canonicalBase_stripped:
  "(userConfig_of_file w st phase dir customConfig = Some (st2, JObj i ps)
      \<and> map_of ps ''amp'' = Some (JObj j aps)
      \<and> map_of aps ''canonicalBase'' = Some (JStr s) \<and> s \<noteq> [] \<longrightarrow>
        strip_canonicalBase (JObj i ps) =
           Inr (JObj i (put_prop ps ''amp''
                  (JObj j (put_prop aps ''canonicalBase'' (JStr (strip_slash s))))))
      \<and> (\<forall>userConfig'. validate w (JObj i ps) = Inr userConfig' \<longrightarrow>
            get (get userConfig' ''amp'') ''canonicalBase'' = JStr (strip_slash s))
      \<and> (\<forall>result. snd (loadConfig w st phase dir customConfig) = Inr result \<longrightarrow>
            get (get result ''amp'') ''canonicalBase'' = JStr (strip_slash s)))
   \<and> strip_slash ''https://x.com/'' = ''https://x.com''
   \<and> (\<forall>c. c \<noteq> [] \<and> last c = CHR ''/'' \<longrightarrow> strip_slash c = butlast c \<and> strip_slash c @ ''/'' = c)
   \<and> (\<forall>c. c = [] \<or> last c \<noteq> CHR ''/'' \<longrightarrow> strip_slash c = c)"
proof -
  have a: "strip_canonicalBase (JObj i ps) =
           Inr (JObj i (put_prop ps ''amp''
                  (JObj j (put_prop aps ''canonicalBase'' (JStr (strip_slash s))))))
      \<and> (\<forall>userConfig'. validate w (JObj i ps) = Inr userConfig' \<longrightarrow>
            get (get userConfig' ''amp'') ''canonicalBase'' = JStr (strip_slash s))
      \<and> (\<forall>result. snd (loadConfig w st phase dir customConfig) = Inr result \<longrightarrow>
            get (get result ''amp'') ''canonicalBase'' = JStr (strip_slash s))"
    if f: "userConfig_of_file w st phase dir customConfig = Some (st2, JObj i ps)"
      and h: "map_of ps ''amp'' = Some (JObj j aps)" "map_of aps ''canonicalBase'' = Some (JStr s)"
        "s \<noteq> []"
  proof -
    note s = strip_canonicalBase_string[OF h, of i]
    have "get (get userConfig' ''amp'') ''canonicalBase'' = JStr (strip_slash s)"
      if "validate w (JObj i ps) = Inr userConfig'" for userConfig'
    proof -
      from validate_Inr[OF that] s
      have "userConfig' = JObj i (put_prop ps ''amp''
                  (JObj j (put_prop aps ''canonicalBase'' (JStr (strip_slash s)))))" by simp
      then show ?thesis by (simp add: get_put_prop)
    qed
    with s loaded_canonicalBase[OF f h] show ?thesis by blast
  qed
  have b: "strip_slash ''https://x.com/'' = ''https://x.com''"
    by (simp add: strip_slash_def endsWith_slash_def slice_0_minus1_def)
  have c: "strip_slash c = butlast c \<and> strip_slash c @ ''/'' = c"
    if "c \<noteq> [] \<and> last c = CHR ''/''" for c
    using that append_butlast_last_id[of c]
    by (simp add: strip_slash_def endsWith_slash_def slice_0_minus1_def)
  have d: "strip_slash c = c" if "c = [] \<or> last c \<noteq> CHR ''/''" for c
    using that by (auto simp: strip_slash_def endsWith_slash_def)
  from a b c d show ?thesis by blast
qed

text \<open>
  The theorem at a file that holds \<^verbatim>\<open>{ amp: { canonicalBase: 'https://x.com/' } }\<close>.
\<close>

theorem canonicalBase_stripped_witness:
  "userConfig_of_file
       (disk [(''/app/next.config.js'',
               JObj 50 [(''amp'', JObj 51 [(''canonicalBase'', JStr ''https://x.com/'')])])] [])
       init_state ''build'' ''/app'' JUndefined
     = Some (\<lparr>warned = False, console = [],
               trace = [FindUp [''next.config.js'', ''next.config.ts''] ''/app'',
                        Require ''/app/next.config.js''],
               fresh = 100\<rparr>,
             JObj 50 [(''amp'', JObj 51 [(''canonicalBase'', JStr ''https://x.com/'')])])
   \<and> \<not> isl (snd (loadConfig
          (disk [(''/app/next.config.js'',
               JObj 50 [(''amp'', JObj 51 [(''canonicalBase'', JStr ''https://x.com/'')])])] [])
          init_state ''build'' ''/app'' JUndefined))
   \<and> get (get (projr (snd (loadConfig
          (disk [(''/app/next.config.js'',
               JObj 50 [(''amp'', JObj 51 [(''canonicalBase'', JStr ''https://x.com/'')])])] [])
          init_state ''build'' ''/app'' JUndefined))) ''amp'') ''canonicalBase''
       = JStr ''https://x.com''"
proof -
  define aps where "aps = [(''canonicalBase'', JStr ''https://x.com/'')]"
  define ps where "ps = [(''amp'', JObj 51 aps)]"
  define W where "W = disk [(''/app/next.config.js'', JObj 50 ps)] []"
  define S2 where "S2 = \<lparr>warned = False, console = [],
               trace = [FindUp [''next.config.js'', ''next.config.ts''] ''/app'',
                        Require ''/app/next.config.js''],
               fresh = 100\<rparr>"
  define out where "out = snd (loadConfig W init_state ''build'' ''/app'' JUndefined)"
  have f: "userConfig_of_file W init_state ''build'' ''/app'' JUndefined = Some (S2, JObj 50 ps)"
    unfolding W_def S2_def ps_def aps_def by code_simp
  have h: "map_of ps ''amp'' = Some (JObj 51 aps)
      \<and> map_of aps ''canonicalBase'' = Some (JStr ''https://x.com/'') \<and> ''https://x.com/'' \<noteq> []"
    unfolding ps_def aps_def by simp
  have ok: "\<not> isl out" unfolding out_def W_def ps_def aps_def by code_simp
  then have o: "out = Inr (projr out)" by simp
  note inst = canonicalBase_stripped[of W init_state "''build''" "''/app''" JUndefined S2 50 ps 51 aps
      "''https://x.com/''"]
  from inst f h o have "get (get (projr out) ''amp'') ''canonicalBase''
      = JStr (strip_slash ''https://x.com/'')"
    unfolding out_def by blast
  moreover from inst have "strip_slash ''https://x.com/'' = ''https://x.com''" by blast
  ultimately have "get (get (projr out) ''amp'') ''canonicalBase'' = JStr ''https://x.com''"
    by simp
  with f ok show ?thesis unfolding out_def W_def S2_def ps_def aps_def by blast
qed

section \<open>The reserved output directory\<close>




section \<open>No configuration file\<close>

text \<open>
  C7.  A call of \<^verbatim>\<open>loadConfig\<close> without an inline configuration, for which the walk up
  the directories finds neither \<^verbatim>\<open>next.config.js\<close> nor \<^verbatim>\<open>next.config.ts\<close>: when the
  second walk finds none of \<^verbatim>\<open>next.config.jsx\<close>, \<^verbatim>\<open>next.config.tsx\<close>,
  \<^verbatim>\<open>next.config.json\<close> either, the call returns the default configuration itself; when
  it finds one, the call throws an error whose message names the file found and the two
  supported file names.
\<close>

theorem loadConfig_no_file:
  assumes "\<not> truthy customConfig"
    and "\<not> found (findUp_sync w [''next.config.js'', ''next.config.ts''] dir)"
  shows "(\<not> found (findUp_sync w [''next.config.jsx'', ''next.config.tsx'', ''next.config.json''] dir)
            \<longrightarrow> snd (loadConfig w st phase dir customConfig) = Inr (defaultConfig w))
       \<and> (\<forall>nonJsPath.
            findUp_sync w [''next.config.jsx'', ''next.config.tsx'', ''next.config.json''] dir
              = Some nonJsPath \<and> nonJsPath \<noteq> []
            \<longrightarrow> snd (loadConfig w st phase dir customConfig) =
                  Inl (Error (''Configuring Next.js via '' @ [CHR 0x27] @ basename nonJsPath @ [CHR 0x27]
                      @ '' is not supported. Please replace the file with 'next.config.js' or 'next.config.ts'.'')))"
proof -
  from assms have "snd (loadConfig w st phase dir customConfig)
      = snd (loadConfig_not_found w (record_event (FindUp [''next.config.js'', ''next.config.ts''] dir) st) dir)"
    by (auto simp: loadConfig_def configBaseName_eq Let_def found_iff split: option.splits)
  then show ?thesis
    by (auto simp: loadConfig_not_found_eq found_iff nonJs_message_def split: option.splits)
qed

text \<open>
  The theorem at work: an empty disk gives the defaults, a disk that holds
  \<^verbatim>\<open>/app/next.config.json\<close> gives the error, both asked from \<^verbatim>\<open>/app/pages\<close>.
\<close>

theorem loadConfig_no_file_witness:
  "\<not> truthy JUndefined
   \<and> \<not> found (findUp_sync (disk [] []) [''next.config.js'', ''next.config.ts''] ''/app/pages'')
   \<and> snd (loadConfig (disk [] []) init_state ''build'' ''/app/pages'' JUndefined)
       = Inr (defaultConfig (disk [] []))
   \<and> \<not> found (findUp_sync (disk [(''/app/next.config.json'', JObj 50 [])] [])
          [''next.config.js'', ''next.config.ts''] ''/app/pages'')
   \<and> snd (loadConfig (disk [(''/app/next.config.json'', JObj 50 [])] []) init_state ''build''
          ''/app/pages'' JUndefined)
       = Inl (Error ''Configuring Next.js via 'next.config.json' is not supported. Please replace the file with 'next.config.js' or 'next.config.ts'.'')"
proof -
  have h1: "\<not> truthy JUndefined" by simp
  have h2: "\<not> found (findUp_sync (disk [] []) [''next.config.js'', ''next.config.ts''] ''/app/pages'')"
    by code_simp
  have h3: "\<not> found (findUp_sync (disk [] []) [''next.config.jsx'', ''next.config.tsx'', ''next.config.json''] ''/app/pages'')"
    by code_simp
  have h4: "\<not> found (findUp_sync (disk [(''/app/next.config.json'', JObj 50 [])] [])
          [''next.config.js'', ''next.config.ts''] ''/app/pages'')"
    by code_simp
  have h5: "findUp_sync (disk [(''/app/next.config.json'', JObj 50 [])] [])
          [''next.config.jsx'', ''next.config.tsx'', ''next.config.json''] ''/app/pages''
          = Some ''/app/next.config.json'' \<and> ''/app/next.config.json'' \<noteq> []"
    by code_simp
  have b: "basename ''/app/next.config.json'' = ''next.config.json''"
    by code_simp
  from loadConfig_no_file[OF h1 h2, of init_state "''build''"] h3
  have c1: "snd (loadConfig (disk [] []) init_state ''build'' ''/app/pages'' JUndefined)
       = Inr (defaultConfig (disk [] []))" by blast
  from loadConfig_no_file[OF h1 h4, of init_state "''build''"] h5
  have c2: "snd (loadConfig (disk [(''/app/next.config.json'', JObj 50 [])] []) init_state ''build''
          ''/app/pages'' JUndefined)
       = Inl (Error (''Configuring Next.js via '' @ [CHR 0x27] @ basename ''/app/next.config.json'' @ [CHR 0x27]
                      @ '' is not supported. Please replace the file with 'next.config.js' or 'next.config.ts'.''))"
    by blast
  from h1 h2 h4 c1 c2 b show ?thesis by simp
qed

section \<open>The one-time warning\<close>

text \<open>
  C8.  Over any sequence of calls of \<^verbatim>\<open>loadConfig\<close> in one process, whatever configurations
  they load, the three lines of the experimental-feature warning are written at most
  once: either the console and the flag are as before, or the flag was unset before, is
  set after, and the console has grown by exactly those three lines.  Once the flag is
  set it stays set and nothing more is written.  From the initial state the first line of
  the warning is on the console at most once.
\<close>

theorem warning_at_most_once:
  "((warned (loadConfig_calls st calls) = warned st \<and>
      console (loadConfig_calls st calls) = console st) \<or>
     (\<not> warned st \<and> warned (loadConfig_calls st calls) \<and>
      console (loadConfig_calls st calls) = console st @ warning_lines))
   \<and> (warned st \<longrightarrow>
         warned (loadConfig_calls st calls) \<and> console (loadConfig_calls st calls) = console st)
   \<and> (console (loadConfig_calls st calls) \<noteq> console st \<longrightarrow> warned (loadConfig_calls st calls))
   \<and> count_list (console (loadConfig_calls init_state calls))
        ''Warning: You have enabled experimental feature(s).'' \<le> 1"
proof -
  have q: "quiet_or_first st (loadConfig_calls st calls)" by (rule quiet_loadConfig_calls)
  have "quiet_or_first init_state (loadConfig_calls init_state calls)"
    by (rule quiet_loadConfig_calls)
  then have "count_list (console (loadConfig_calls init_state calls))
        ''Warning: You have enabled experimental feature(s).'' \<le> 1"
    by (auto simp: quiet_or_first_def init_state_def warning_lines_def)
  with q show ?thesis by (auto simp: quiet_or_first_def)
qed

text \<open>
  The theorem at three loads, each of an inline configuration with an
  \<^verbatim>\<open>experimental\<close> object of its own: the warning is on the console once.
\<close>

theorem warning_at_most_once_witness:
  "console (loadConfig_calls init_state
       [(disk [] [], ''build'', ''/app'', JObj 50 [(''experimental'', JObj 51 [(''css'', JBool True)])]),
        (disk [] [], ''build'', ''/app'', JObj 52 [(''experimental'', JObj 53 [(''modern'', JBool True)])]),
        (disk [] [], ''export'', ''/app'', JObj 54 [(''experimental'', JObj 55 [(''css'', JBool True)])])])
     = warning_lines
   \<and> warned (loadConfig_calls init_state
       [(disk [] [], ''build'', ''/app'', JObj 50 [(''experimental'', JObj 51 [(''css'', JBool True)])]),
        (disk [] [], ''build'', ''/app'', JObj 52 [(''experimental'', JObj 53 [(''modern'', JBool True)])]),
        (disk [] [], ''export'', ''/app'', JObj 54 [(''experimental'', JObj 55 [(''css'', JBool True)])])])"
proof -
  define calls where "calls =
       [(disk [] [], ''build'', ''/app'', JObj 50 [(''experimental'', JObj 51 [(''css'', JBool True)])]),
        (disk [] [], ''build'', ''/app'', JObj 52 [(''experimental'', JObj 53 [(''modern'', JBool True)])]),
        (disk [] [], ''export'', ''/app'', JObj 54 [(''experimental'', JObj 55 [(''css'', JBool True)])])]"
  have c: "console (loadConfig_calls init_state calls) \<noteq> console init_state"
    unfolding calls_def by code_simp
  have i: "console init_state = [] \<and> \<not> warned init_state" by (simp add: init_state_def)
  from warning_at_most_once[of init_state calls] c
  have "warned (loadConfig_calls init_state calls)
      \<and> console (loadConfig_calls init_state calls) = console init_state @ warning_lines"
    by blast
  with i show ?thesis unfolding calls_def by simp
qed

section \<open>The target predicate\<close>

text \<open>
  C9.  \<^verbatim>\<open>isTargetLikeServerless(target)\<close> is true exactly for the strings
  \<^verbatim>\<open>'serverless'\<close> and \<^verbatim>\<open>'experimental-serverless-trace'\<close>; it is false for \<^verbatim>\<open>'server'\<close>.
\<close>

theorem isTargetLikeServerless_iff:
  "isTargetLikeServerless target =
     (target = ''serverless'' \<or> target = ''experimental-serverless-trace'')
   \<and> isTargetLikeServerless ''serverless''
   \<and> isTargetLikeServerless ''experimental-serverless-trace''
   \<and> isTargetLikeServerless ''server'' = False"
  by (simp add: isTargetLikeServerless_def)

section \<open>An inline configuration\<close>

lemma map_of_inline_literal:
  "map_of (spread [(''configOrigin'', x)] c) k =
     (case map_of (own_props c) k of
        Some v \<Rightarrow> Some v
      | None \<Rightarrow> if k = ''configOrigin'' then Some x else None)"
  by (simp add: map_of_spread map_add_def split: option.splits)

lemma inline_merge:
  assumes t: "truthy customConfig"
    and r: "snd (loadConfig w st phase dir customConfig) = Inr result"
  shows "set (own_keys (defaultConfig w)) \<subseteq> set (own_keys result)
   \<and> (\<forall>k v. map_of (own_props customConfig) k = Some v \<and> is_plain_object v \<longrightarrow>
         (\<exists>j merged. get result k = JObj j merged \<and>
            map_of merged =
              (if truthy (get (defaultConfig w) k)
               then map_of (own_props (get (defaultConfig w) k)) else Map.empty)
              ++ map_of (own_props v)))
   \<and> (\<forall>k v. map_of (own_props customConfig) k = Some v \<and> \<not> is_plain_object v \<longrightarrow>
         get result k = v)
   \<and> (\<forall>k. map_of (own_props customConfig) k = None \<and> k \<noteq> ''configOrigin'' \<longrightarrow>
         get result k = get (defaultConfig w) k)
   \<and> (map_of (own_props customConfig) ''configOrigin'' = None \<longrightarrow>
         get result ''configOrigin'' = JStr ''server'')"
proof -
  let ?lit = "spread [(''configOrigin'', JStr ''server'')] customConfig"
  from t r obtain st' where
    out: "assignDefaults w (st\<lparr>fresh := Suc (fresh st)\<rparr>) (JObj (fresh st) ?lit) = (st', Inr result)"
    by (simp add: loadConfig_inline_eq) (metis prod.collapse)
  note m = merge_result[OF out]
  have keys: "set (own_keys (defaultConfig w)) \<subseteq> set (own_keys result)"
    using m by blast
  have plain: "\<exists>j merged. get result k = JObj j merged \<and>
            map_of merged =
              (if truthy (get (defaultConfig w) k)
               then map_of (own_props (get (defaultConfig w) k)) else Map.empty)
              ++ map_of (own_props v)"
    if "map_of (own_props customConfig) k = Some v" "is_plain_object v" for k v
  proof -
    from that(1) have "map_of ?lit k = Some v" by (simp add: map_of_inline_literal)
    with m that(2) show ?thesis by blast
  qed
  have other: "get result k = v"
    if "map_of (own_props customConfig) k = Some v" "\<not> is_plain_object v" for k v
  proof -
    from that(1) have "map_of ?lit k = Some v" by (simp add: map_of_inline_literal)
    with m that(2) show ?thesis by blast
  qed
  have absent: "get result k = get (defaultConfig w) k"
    if "map_of (own_props customConfig) k = None" "k \<noteq> ''configOrigin''" for k
  proof -
    from that have "map_of ?lit k = None" by (simp add: map_of_inline_literal)
    with m show ?thesis by blast
  qed
  have origin: "get result ''configOrigin'' = JStr ''server''"
    if "map_of (own_props customConfig) ''configOrigin'' = None"
  proof -
    from that have "map_of ?lit ''configOrigin'' = Some (JStr ''server'')"
      by (simp add: map_of_inline_literal)
    moreover have "\<not> is_plain_object (JStr ''server'')" by (rule not_plain_string)
    ultimately show ?thesis using m by blast
  qed
  from keys plain other absent origin show ?thesis by blast
qed

lemma inline_throws_iff:
  "truthy customConfig \<Longrightarrow>
     isl (snd (loadConfig w st phase dir customConfig)) = (get customConfig ''distDir'' = JStr ''public'')
   \<and> (snd (loadConfig w st phase dir customConfig) = Inl (Error distDir_message))
        = (get customConfig ''distDir'' = JStr ''public'')"
  by (simp add: loadConfig_inline_eq assignDefaults_throws_iff assignDefaults_raises get_literal)

lemma inline_bogus_merged:
  "\<exists>result. snd (loadConfig w st phase dir (JObj i [(''target'', JStr ''bogus'')])) = Inr result
      \<and> get result ''target'' = JStr ''bogus''
      \<and> get result ''distDir'' = JStr ''.next''
      \<and> get result ''configOrigin'' = JStr ''server''"
proof -
  let ?c = "JObj i [(''target'', JStr ''bogus'')]"
  have t: "truthy ?c" by simp
  have "get ?c ''distDir'' \<noteq> JStr ''public''" by (simp add: get_JObj)
  with inline_throws_iff[OF t, of w st phase dir]
  have "\<not> isl (snd (loadConfig w st phase dir ?c))" by simp
  then obtain result where r: "snd (loadConfig w st phase dir ?c) = Inr result"
    by (metis sum.collapse(2))
  note m = inline_merge[OF t r]
  have p: "map_of (own_props ?c) ''target'' = Some (JStr ''bogus'')"
    "map_of (own_props ?c) ''distDir'' = None" "map_of (own_props ?c) ''configOrigin'' = None"
    by simp_all
  have d: "get (defaultConfig w) ''distDir'' = JStr ''.next''"
    by (simp add: defaultConfig_def get_JObj)
  from m p(1) not_plain_string[of "''bogus''"] have 1: "get result ''target'' = JStr ''bogus''"
    by blast
  from m p(2) d have 2: "get result ''distDir'' = JStr ''.next''" by simp
  from m p(3) have 3: "get result ''configOrigin'' = JStr ''server''" by blast
  from r 1 2 3 show ?thesis by blast
qed

lemma inline_public_bogus:
  "snd (loadConfig w st phase dir (JObj i [(''distDir'', JStr ''public''), (''target'', JStr ''bogus'')]))
     = Inl (Error distDir_message)"
proof -
  let ?c = "JObj i [(''distDir'', JStr ''public''), (''target'', JStr ''bogus'')]"
  have t: "truthy ?c" by simp
  have "get ?c ''distDir'' = JStr ''public''" by (simp add: get_JObj)
  with inline_throws_iff[OF t, of w st phase dir] show ?thesis by simp
qed

text \<open>
  C10.  With a truthy third argument \<^verbatim>\<open>loadConfig\<close> is \<^verbatim>\<open>assignDefaults\<close> applied to the
  literal \<^verbatim>\<open>{ configOrigin: 'server', ...customConfig }\<close> and nothing else.
  \<^item> No call of \<^verbatim>\<open>findUp.sync\<close>, of \<^verbatim>\<open>require\<close> or of a user function is made, and the
    result does not depend on them, on the phase or on the directory.
  \<^item> The check of \<^verbatim>\<open>distDir\<close> runs: the call throws if and only if \<^verbatim>\<open>distDir\<close> of the inline
    configuration is \<^verbatim>\<open>'public'\<close>, and what it throws is the error for \<^verbatim>\<open>distDir\<close>; there
    is no other error.
  \<^item> The merge runs: a configuration that is returned has every key of the defaults; under
    a key that the inline configuration binds to a plain object it has an object with the
    properties of the default overridden by those of the user value; under a key bound to
    anything else it has the user value; under a key the inline configuration does not
    bind it has the default; and \<^verbatim>\<open>configOrigin\<close> is \<^verbatim>\<open>'server'\<close> unless the inline
    configuration binds it.
  \<^item> None of the checks of the file path runs: \<^verbatim>\<open>loadConfig(phase, dir, { target: 'bogus' })\<close>
    returns a merged configuration whose target is \<^verbatim>\<open>'bogus'\<close>, whose \<^verbatim>\<open>distDir\<close> is the default
    \<^verbatim>\<open>'.next'\<close> and whose origin is \<^verbatim>\<open>'server'\<close>, and with \<^verbatim>\<open>distDir: 'public'\<close> beside that
    target the error is the one for \<^verbatim>\<open>distDir\<close>, not the one for the target.
\<close>

theorem inline_config_unchecked:
  "(truthy customConfig \<longrightarrow>
      loadConfig w st phase dir customConfig =
        assignDefaults w (st\<lparr>fresh := Suc (fresh st)\<rparr>)
          (JObj (fresh st) (spread [(''configOrigin'', JStr ''server'')] customConfig))
      \<and> trace (fst (loadConfig w st phase dir customConfig)) = trace st
      \<and> loadConfig (w\<lparr>findUp_sync := f, require := r, call_fn := c, fn_source := s\<rparr>)
            st phase' dir' customConfig
          = loadConfig w st phase dir customConfig
      \<and> (isl (snd (loadConfig w st phase dir customConfig)) \<longrightarrow>
            snd (loadConfig w st phase dir customConfig) = Inl (Error distDir_message))
      \<and> isl (snd (loadConfig w st phase dir customConfig))
          = (get customConfig ''distDir'' = JStr ''public'')
      \<and> (snd (loadConfig w st phase dir customConfig) = Inl (Error distDir_message))
          = (get customConfig ''distDir'' = JStr ''public'')
      \<and> (snd (loadConfig w st phase dir customConfig) = Inr result \<longrightarrow>
            set (own_keys (defaultConfig w)) \<subseteq> set (own_keys result)
          \<and> (\<forall>k v. map_of (own_props customConfig) k = Some v \<and> is_plain_object v \<longrightarrow>
                (\<exists>j merged. get result k = JObj j merged \<and>
                   map_of merged =
                     (if truthy (get (defaultConfig w) k)
                      then map_of (own_props (get (defaultConfig w) k)) else Map.empty)
                     ++ map_of (own_props v)))
          \<and> (\<forall>k v. map_of (own_props customConfig) k = Some v \<and> \<not> is_plain_object v \<longrightarrow>
                get result k = v)
          \<and> (\<forall>k. map_of (own_props customConfig) k = None \<and> k \<noteq> ''configOrigin'' \<longrightarrow>
                get result k = get (defaultConfig w) k)
          \<and> (map_of (own_props customConfig) ''configOrigin'' = None \<longrightarrow>
                get result ''configOrigin'' = JStr ''server'')))
   \<and> (\<exists>result. snd (loadConfig w st phase dir (JObj i [(''target'', JStr ''bogus'')])) = Inr result
          \<and> get result ''target'' = JStr ''bogus''
          \<and> get result ''distDir'' = JStr ''.next''
          \<and> get result ''configOrigin'' = JStr ''server'')
   \<and> snd (loadConfig w st phase dir
             (JObj i [(''distDir'', JStr ''public''), (''target'', JStr ''bogus'')]))
       = Inl (Error distDir_message)"
proof -
  have run: "loadConfig w st phase dir customConfig =
        assignDefaults w (st\<lparr>fresh := Suc (fresh st)\<rparr>)
          (JObj (fresh st) (spread [(''configOrigin'', JStr ''server'')] customConfig))
      \<and> trace (fst (loadConfig w st phase dir customConfig)) = trace st
      \<and> loadConfig (w\<lparr>findUp_sync := f, require := r, call_fn := c, fn_source := s\<rparr>)
            st phase' dir' customConfig
          = loadConfig w st phase dir customConfig
      \<and> (isl (snd (loadConfig w st phase dir customConfig)) \<longrightarrow>
            snd (loadConfig w st phase dir customConfig) = Inl (Error distDir_message))"
    if t: "truthy customConfig"
  proof -
    have "assignDefaults (w\<lparr>findUp_sync := f, require := r, call_fn := c, fn_source := s\<rparr>) st0 u
        = assignDefaults w st0 u" for st0 u
      by (rule assignDefaults_cong) (rule defaultConfig_environment)
    with t show ?thesis
      using assignDefaults_error[of w "st\<lparr>fresh := Suc (fresh st)\<rparr>"
          "JObj (fresh st) (spread [(''configOrigin'', JStr ''server'')] customConfig)"]
      by (auto simp: loadConfig_inline_eq assignDefaults_trace isl_def)
  qed
  have check: "isl (snd (loadConfig w st phase dir customConfig))
          = (get customConfig ''distDir'' = JStr ''public'')
      \<and> (snd (loadConfig w st phase dir customConfig) = Inl (Error distDir_message))
          = (get customConfig ''distDir'' = JStr ''public'')"
    if "truthy customConfig"
    using that by (rule inline_throws_iff)
  have merge: "set (own_keys (defaultConfig w)) \<subseteq> set (own_keys result)
          \<and> (\<forall>k v. map_of (own_props customConfig) k = Some v \<and> is_plain_object v \<longrightarrow>
                (\<exists>j merged. get result k = JObj j merged \<and>
                   map_of merged =
                     (if truthy (get (defaultConfig w) k)
                      then map_of (own_props (get (defaultConfig w) k)) else Map.empty)
                     ++ map_of (own_props v)))
          \<and> (\<forall>k v. map_of (own_props customConfig) k = Some v \<and> \<not> is_plain_object v \<longrightarrow>
                get result k = v)
          \<and> (\<forall>k. map_of (own_props customConfig) k = None \<and> k \<noteq> ''configOrigin'' \<longrightarrow>
                get result k = get (defaultConfig w) k)
          \<and> (map_of (own_props customConfig) ''configOrigin'' = None \<longrightarrow>
                get result ''configOrigin'' = JStr ''server'')"
    if "truthy customConfig" "snd (loadConfig w st phase dir customConfig) = Inr result"
    using that by (rule inline_merge)
  show ?thesis
  proof (intro conjI impI)
    show "\<exists>result. snd (loadConfig w st phase dir (JObj i [(''target'', JStr ''bogus'')])) = Inr result
          \<and> get result ''target'' = JStr ''bogus''
          \<and> get result ''distDir'' = JStr ''.next''
          \<and> get result ''configOrigin'' = JStr ''server''"
      by (rule inline_bogus_merged)
    show "snd (loadConfig w st phase dir
             (JObj i [(''distDir'', JStr ''public''), (''target'', JStr ''bogus'')]))
       = Inl (Error distDir_message)"
      by (rule inline_public_bogus)
  qed (use run check merge in blast)+
qed

text \<open>
  The theorem at \<^verbatim>\<open>{ target: 'bogus', onDemandEntries: { maxInactiveAge: 5 } }\<close> on an empty
  disk: the trace of calls to the environment stays empty, the target is kept, \<^verbatim>\<open>distDir\<close>
  and the origin are filled in, and \<^verbatim>\<open>onDemandEntries\<close> keeps the default
  \<^verbatim>\<open>pagesBufferLength\<close> beside the user's \<^verbatim>\<open>maxInactiveAge\<close>.
\<close>

theorem inline_config_unchecked_witness:
  "truthy (JObj 50 [(''target'', JStr ''bogus''),
                    (''onDemandEntries'', JObj 51 [(''maxInactiveAge'', JNum 5)])])
   \<and> trace (fst (loadConfig (disk [] []) init_state ''build'' ''/app''
        (JObj 50 [(''target'', JStr ''bogus''),
                  (''onDemandEntries'', JObj 51 [(''maxInactiveAge'', JNum 5)])]))) = []
   \<and> (\<exists>result. snd (loadConfig (disk [] []) init_state ''build'' ''/app''
           (JObj 50 [(''target'', JStr ''bogus''),
                     (''onDemandEntries'', JObj 51 [(''maxInactiveAge'', JNum 5)])])) = Inr result
          \<and> get result ''target'' = JStr ''bogus''
          \<and> get result ''distDir'' = JStr ''.next''
          \<and> get result ''configOrigin'' = JStr ''server''
          \<and> (\<exists>j merged. get result ''onDemandEntries'' = JObj j merged
                \<and> map_of merged ''maxInactiveAge'' = Some (JNum 5)
                \<and> map_of merged ''pagesBufferLength'' = Some (JNum 2)))"
proof -
  define C where "C = JObj 50 [(''target'', JStr ''bogus''),
                    (''onDemandEntries'', JObj 51 [(''maxInactiveAge'', JNum 5)])]"
  define W where "W = disk [] []"
  have t: "truthy C" by (simp add: C_def)
  have i: "trace init_state = []" by (simp add: init_state_def)
  have d: "get C ''distDir'' \<noteq> JStr ''public''" unfolding C_def by code_simp
  have p1: "map_of (own_props C) ''target'' = Some (JStr ''bogus'')" unfolding C_def by code_simp
  have n1: "\<not> is_plain_object (JStr ''bogus'')" by code_simp
  have p2: "map_of (own_props C) ''onDemandEntries'' = Some (JObj 51 [(''maxInactiveAge'', JNum 5)])"
    unfolding C_def by code_simp
  have n2: "is_plain_object (JObj 51 [(''maxInactiveAge'', JNum 5)])" by code_simp
  have p3: "map_of (own_props C) ''distDir'' = None" unfolding C_def by code_simp
  have p4: "map_of (own_props C) ''configOrigin'' = None" unfolding C_def by code_simp
  have d3: "get (defaultConfig W) ''distDir'' = JStr ''.next''" unfolding W_def by code_simp
  have d2: "truthy (get (defaultConfig W) ''onDemandEntries'')" unfolding W_def by code_simp
  have d2': "map_of (own_props (get (defaultConfig W) ''onDemandEntries'')) ''pagesBufferLength''
      = Some (JNum 2)" unfolding W_def by code_simp
  have u2: "map_of (own_props (JObj 51 [(''maxInactiveAge'', JNum 5)])) ''maxInactiveAge'' = Some (JNum 5)"
    "map_of (own_props (JObj 51 [(''maxInactiveAge'', JNum 5)])) ''pagesBufferLength'' = None"
    by code_simp+
  note inst = inline_config_unchecked[of C W init_state "''build''" "''/app''" _ _ _ _
      "''build''" "''/app''" _ 50]
  from inst t i have tr: "trace (fst (loadConfig W init_state ''build'' ''/app'' C)) = []"
    by metis
  from inst t d have "\<not> isl (snd (loadConfig W init_state ''build'' ''/app'' C))" by blast
  then obtain result where r: "snd (loadConfig W init_state ''build'' ''/app'' C) = Inr result"
    by (metis sum.collapse(2))
  note m = inline_config_unchecked[of C W init_state "''build''" "''/app''" _ _ _ _
      "''build''" "''/app''" result 50]
  from m t r p1 n1 have g1: "get result ''target'' = JStr ''bogus''" by blast
  from m t r p3 d3 have g3: "get result ''distDir'' = JStr ''.next''" by simp
  from m t r p4 have g4: "get result ''configOrigin'' = JStr ''server''" by blast
  from m t r p2 n2 obtain j merged where
    g2: "get result ''onDemandEntries'' = JObj j merged" and
    mm: "map_of merged =
           (if truthy (get (defaultConfig W) ''onDemandEntries'')
            then map_of (own_props (get (defaultConfig W) ''onDemandEntries'')) else Map.empty)
           ++ map_of (own_props (JObj 51 [(''maxInactiveAge'', JNum 5)]))"
    by blast
  from mm d2 d2' u2 have "map_of merged ''maxInactiveAge'' = Some (JNum 5)"
    "map_of merged ''pagesBufferLength'' = Some (JNum 2)"
    by (simp_all add: map_add_def)
  with g2 have "\<exists>j merged. get result ''onDemandEntries'' = JObj j merged
                \<and> map_of merged ''maxInactiveAge'' = Some (JNum 5)
                \<and> map_of merged ''pagesBufferLength'' = Some (JNum 2)" by blast
  with t tr r g1 g3 g4 show ?thesis unfolding C_def W_def by blast
qed

end
